theory Spec2Isabelle
  imports Main
begin

section \<open>JavaScript values used by the word game\<close>

text \<open>
  A JavaScript string is a sequence of UTF-16 code units, and \<open>.length\<close> counts code
  units. The word database of the game is Cyrillic, so code units are modelled as
  natural numbers; \<open>ascii\<close> writes a Basic Latin literal.
\<close>

type_synonym jschar = nat
type_synonym jsstring = "jschar list"

definition ascii :: "string \<Rightarrow> jsstring" where
  "ascii s = map of_char s"

text \<open>\<open>s[i]\<close>: the code unit at index \<open>i\<close>, \<open>undefined\<close> (here \<open>None\<close>) out of range.\<close>

definition unitAt :: "jsstring \<Rightarrow> int \<Rightarrow> jschar option" where
  "unitAt s i = (if 0 \<le> i \<and> i < int (length s) then Some (s ! nat i) else None)"

text \<open>
  \<open>String.prototype.toLowerCase\<close> is the lower-case mapping of the JavaScript engine: it
  follows the engine's Unicode tables, and the result can differ in length from the
  string. It is not defined here. Every function below that calls it takes the mapping
  as its first argument, written \<open>toLowerCase\<close> as in the source, and a theorem in which
  \<open>toLowerCase\<close> occurs free holds for every function from strings to strings, so for
  the engine's.
\<close>

type_synonym caseMapping = "jsstring \<Rightarrow> jsstring"

text \<open>
  \<open>String.prototype.trim\<close> removes white space and line terminators from both ends:
  TAB, LF, VT, FF, CR, SP, NBSP, U+1680, U+2000..U+200A, U+2028, U+2029, U+202F,
  U+205F, U+3000 and U+FEFF.
\<close>

definition isWhitespace :: "jschar \<Rightarrow> bool" where
  "isWhitespace c =
     ((9 \<le> c \<and> c \<le> 13) \<or> c = 32 \<or> c = 160 \<or> c = 5760 \<or> (8192 \<le> c \<and> c \<le> 8202)
      \<or> c = 8232 \<or> c = 8233 \<or> c = 8239 \<or> c = 8287 \<or> c = 12288 \<or> c = 65279)"

definition trim :: "jsstring \<Rightarrow> jsstring" where
  "trim s = rev (dropWhile isWhitespace (rev (dropWhile isWhitespace s)))"

text \<open>
  A JavaScript \<open>Set\<close> of strings keeps its elements in insertion order and holds no
  element twice. It is modelled by the list of its elements in insertion order.
\<close>

type_synonym jsset = "jsstring list"

definition set_has :: "jsset \<Rightarrow> jsstring \<Rightarrow> bool" where
  "set_has s x = (x \<in> set s)"

definition set_add :: "jsset \<Rightarrow> jsstring \<Rightarrow> jsset" where
  "set_add s x = (if set_has s x then s else s @ [x])"

definition set_size :: "jsset \<Rightarrow> nat" where
  "set_size s = length s"

text \<open>\<open>new Set(array)\<close> and \<open>Array.from(set)\<close>.\<close>

definition new_Set :: "jsstring list \<Rightarrow> jsset" where
  "new_Set xs = foldl set_add [] xs"

definition Array_from :: "jsset \<Rightarrow> jsstring list" where
  "Array_from s = s"

datatype error = TypeError

section \<open>Configuration (\<open>GAME_CONFIG\<close>)\<close>

definition CATEGORIES :: "jsstring list" where
  "CATEGORIES =
     [[1075, 1086, 1088, 1086, 1076, 1072],
      [1078, 1080, 1074, 1086, 1090, 1085, 1099, 1077],
      [1088, 1072, 1089, 1090, 1077, 1085, 1080, 1103]]"

definition DIFFICULTY_LEVELS :: "jsstring list" where
  "DIFFICULTY_LEVELS = [ascii ''easy'', ascii ''medium'', ascii ''hard'']"

definition MIN_WORD_LENGTH :: nat where "MIN_WORD_LENGTH = 2"
definition MAX_WORDS_FOR_WIN :: nat where "MAX_WORDS_FOR_WIN = 5"
definition MAX_SKIPPED_TURNS :: nat where "MAX_SKIPPED_TURNS = 2"

section \<open>Players\<close>

text \<open>
  \<open>Player\<close> carries \<open>#name\<close>, \<open>#score\<close> and \<open>#id\<close>; \<open>HumanPlayer\<close> adds \<open>#email\<close> and
  \<open>#username\<close>, \<open>ComputerPlayer\<close> adds \<open>#difficulty\<close> and \<open>#wordDatabase\<close> (an object
  from category names to arrays of words, here an association list).
\<close>

type_synonym wordDatabase = "(jsstring \<times> jsstring list) list"

datatype player =
    is_HumanPlayer: HumanPlayer (name: jsstring) (score: int) (player_id: jsstring)
                (email: jsstring) (username: jsstring)
  | is_ComputerPlayer: ComputerPlayer (name: jsstring) (score: int) (player_id: jsstring)
                   (difficulty: jsstring) (wordDatabase: wordDatabase)

text \<open>The word lists written in the constructor of \<open>ComputerPlayer\<close> in \<open>src/app.js\<close>.\<close>

definition initializeWordDatabase :: wordDatabase where
  "initializeWordDatabase =
   [([1075, 1086, 1088, 1086, 1076, 1072],
     [[1052, 1086, 1089, 1082, 1074, 1072],
      [1040, 1084, 1089, 1090, 1077, 1088, 1076, 1072, 1084],
      [1052, 1072, 1076, 1088, 1080, 1076],
      [1051, 1086, 1085, 1076, 1086, 1085],
      [1054, 1089, 1083, 1086],
      [1050, 1080, 1077, 1074],
      [1042, 1072, 1088, 1096, 1072, 1074, 1072],
      [1056, 1080, 1084],
      [1055, 1072, 1088, 1080, 1078],
      [1041, 1077, 1088, 1083, 1080, 1085]]),
    ([1078, 1080, 1074, 1086, 1090, 1085, 1099, 1077],
     [[1040, 1085, 1090, 1080, 1083, 1086, 1087, 1072],
      [1041, 1072, 1088, 1072, 1085],
      [1053, 1086, 1089, 1086, 1088, 1086, 1075],
      [1043, 1077, 1087, 1072, 1088, 1076],
      [1044, 1077, 1083, 1100, 1092, 1080, 1085],
      [1045, 1085, 1086, 1090],
      [1046, 1080, 1088, 1072, 1092],
      [1047, 1077, 1073, 1088, 1072],
      [1048, 1075, 1091, 1072, 1085, 1072],
      [1050, 1077, 1085, 1075, 1091, 1088, 1091]]),
    ([1088, 1072, 1089, 1090, 1077, 1085, 1080, 1103],
     [[1040, 1082, 1072, 1094, 1080, 1103],
      [1041, 1077, 1088, 1077, 1079, 1072],
      [1056, 1086, 1084, 1072, 1096, 1082, 1072],
      [1043, 1074, 1086, 1079, 1076, 1080, 1082, 1072],
      [1044, 1091, 1073],
      [1045, 1083, 1100],
      [1046, 1072, 1089, 1084, 1080, 1085],
      [1048, 1088, 1080, 1089],
      [1050, 1077, 1076, 1088],
      [1051, 1080, 1087, 1072]])]"

text \<open>
  The word lists of the constructor in \<open>src/unnamed/part_000\<close>: the first category
  differs from \<open>src/app.js\<close> (it has Omsk, Afiny and Sochi in place of Rim, Parizh and
  Berlin).
\<close>

definition wordDatabase_part000 :: wordDatabase where
  "wordDatabase_part000 =
   [([1075, 1086, 1088, 1086, 1076, 1072],
     [[1052, 1086, 1089, 1082, 1074, 1072],
      [1040, 1084, 1089, 1090, 1077, 1088, 1076, 1072, 1084],
      [1052, 1072, 1076, 1088, 1080, 1076],
      [1051, 1086, 1085, 1076, 1086, 1085],
      [1054, 1089, 1083, 1086],
      [1054, 1084, 1089, 1082],
      [1050, 1080, 1077, 1074],
      [1042, 1072, 1088, 1096, 1072, 1074, 1072],
      [1040, 1092, 1080, 1085, 1099],
      [1057, 1086, 1095, 1080]]),
    ([1078, 1080, 1074, 1086, 1090, 1085, 1099, 1077],
     [[1040, 1085, 1090, 1080, 1083, 1086, 1087, 1072],
      [1041, 1072, 1088, 1072, 1085],
      [1053, 1086, 1089, 1086, 1088, 1086, 1075],
      [1043, 1077, 1087, 1072, 1088, 1076],
      [1044, 1077, 1083, 1100, 1092, 1080, 1085],
      [1045, 1085, 1086, 1090],
      [1046, 1080, 1088, 1072, 1092],
      [1047, 1077, 1073, 1088, 1072],
      [1048, 1075, 1091, 1072, 1085, 1072],
      [1050, 1077, 1085, 1075, 1091, 1088, 1091]]),
    ([1088, 1072, 1089, 1090, 1077, 1085, 1080, 1103],
     [[1040, 1082, 1072, 1094, 1080, 1103],
      [1041, 1077, 1088, 1077, 1079, 1072],
      [1056, 1086, 1084, 1072, 1096, 1082, 1072],
      [1043, 1074, 1086, 1079, 1076, 1080, 1082, 1072],
      [1044, 1091, 1073],
      [1045, 1083, 1100],
      [1046, 1072, 1089, 1084, 1080, 1085],
      [1048, 1088, 1080, 1089],
      [1050, 1077, 1076, 1088],
      [1051, 1080, 1087, 1072]])]"

text \<open>\<open>new ComputerPlayer(d)\<close>; the random id of \<open>Player.generateId\<close> is a parameter.\<close>

definition new_ComputerPlayer :: "jsstring \<Rightarrow> jsstring \<Rightarrow> player" where
  "new_ComputerPlayer d rid =
     ComputerPlayer [1050, 1086, 1084, 1087, 1100, 1102, 1090, 1077, 1088] 0 rid d
       initializeWordDatabase"

definition new_ComputerPlayer_part000 :: "jsstring \<Rightarrow> jsstring \<Rightarrow> player" where
  "new_ComputerPlayer_part000 d rid =
     ComputerPlayer [1050, 1086, 1084, 1087, 1100, 1102, 1090, 1077, 1088] 0 rid d
       wordDatabase_part000"

text \<open>\<open>new HumanPlayer(n, e, u)\<close>.\<close>

definition new_HumanPlayer :: "jsstring \<Rightarrow> jsstring \<Rightarrow> jsstring \<Rightarrow> jsstring \<Rightarrow> player" where
  "new_HumanPlayer n e u rid = HumanPlayer n 0 rid e u"

text \<open>\<open>addPoint(p)\<close> and \<open>resetScore()\<close>.\<close>

definition addPoint :: "int \<Rightarrow> player \<Rightarrow> player" where
  "addPoint p pl =
     (case pl of
        HumanPlayer n s i e u \<Rightarrow> HumanPlayer n (s + p) i e u
      | ComputerPlayer n s i d db \<Rightarrow> ComputerPlayer n (s + p) i d db)"

definition resetScore :: "player \<Rightarrow> player" where
  "resetScore pl =
     (case pl of
        HumanPlayer n s i e u \<Rightarrow> HumanPlayer n 0 i e u
      | ComputerPlayer n s i d db \<Rightarrow> ComputerPlayer n 0 i d db)"

section \<open>Moves\<close>

text \<open>
  What a turn reads from outside the program: the line the human types at the prompt,
  and the outcome of \<open>Math.random()\<close>. \<open>Math.floor(Math.random() * n)\<close> ranges over
  \<open>0..n-1\<close> and is modelled as \<open>rnd mod n\<close>.
\<close>

record input =
  typed :: jsstring
  rnd :: nat

text \<open>\<open>this.#wordDatabase[category] || []\<close>\<close>

definition categoryWords :: "wordDatabase \<Rightarrow> jsstring \<Rightarrow> jsstring list" where
  "categoryWords db category = (case map_of db category of Some ws \<Rightarrow> ws | None \<Rightarrow> [])"

text \<open>
  The predicate both copies filter the category's list with: the lower-cased word is not
  in the used set, and either there is no last word or the first code unit of the
  lower-cased word is the last code unit of the lower-cased last word.
\<close>

definition fitsChain ::
  "caseMapping \<Rightarrow> jsstring \<Rightarrow> jsset \<Rightarrow> jsstring \<Rightarrow> bool" where
  "fitsChain toLowerCase lastWord usedWords w =
     (let lw = toLowerCase w;
          llw = (if lastWord \<noteq> [] then toLowerCase lastWord else [])
      in \<not> set_has usedWords lw \<and>
         (lastWord = [] \<or> unitAt lw 0 = unitAt llw (int (length llw) - 1)))"

subsection \<open>\<open>ComputerPlayer.makeMove\<close> in \<open>src/app.js\<close>\<close>

text \<open>The array \<open>words\<close> of \<open>makeMove\<close> (lines 151 to 154).\<close>

definition words_of ::
  "caseMapping \<Rightarrow> wordDatabase \<Rightarrow> jsstring \<Rightarrow> jsset \<Rightarrow> jsstring \<Rightarrow> jsstring list" where
  "words_of toLowerCase db lastWord usedWords category =
     filter (fitsChain toLowerCase lastWord usedWords) (categoryWords db category)"

text \<open>The \<open>switch\<close> of \<open>makeMove\<close> (lines 157 to 161), reached with a non-empty array.\<close>

definition selected :: "jsstring \<Rightarrow> jsstring list \<Rightarrow> nat \<Rightarrow> jsstring" where
  "selected d words r =
     (if d = ascii ''easy'' then hd words
      else if d = ascii ''hard'' then
        foldl (\<lambda>a b. if length a > length b then a else b) (hd words) words
      else words ! (r mod length words))"

text \<open>\<open>makeMove\<close> of both classes; \<open>None\<close> is \<open>null\<close>.\<close>

fun makeMove ::
  "caseMapping \<Rightarrow> player \<Rightarrow> jsstring \<Rightarrow> jsset \<Rightarrow> jsstring \<Rightarrow> input \<Rightarrow> jsstring option" where
  "makeMove toLowerCase (HumanPlayer n s i e u) lastWord usedWords category inp =
     Some (trim (typed inp))"
| "makeMove toLowerCase (ComputerPlayer n s i d db) lastWord usedWords category inp =
     (let words = words_of toLowerCase db lastWord usedWords category
      in if length words = 0 then None else Some (selected d words (rnd inp)))"

subsection \<open>\<open>ComputerPlayer.makeMove\<close> in \<open>src/unnamed/part_000\<close>\<close>

definition getAvailableWords ::
  "caseMapping \<Rightarrow> wordDatabase \<Rightarrow> jsstring \<Rightarrow> jsset \<Rightarrow> jsstring \<Rightarrow> jsstring list" where
  "getAvailableWords toLowerCase db lastWord usedWords category =
     (let words = categoryWords db category
      in filter (\<lambda>word. fitsChain toLowerCase lastWord usedWords word) words)"

text \<open>
  \<open>#selectWordByDifficulty(words)\<close>; on an empty array every branch yields
  \<open>undefined\<close> (\<open>None\<close>).
\<close>

definition selectWordByDifficulty :: "jsstring \<Rightarrow> jsstring list \<Rightarrow> nat \<Rightarrow> jsstring option" where
  "selectWordByDifficulty d words r =
     (case words of
        [] \<Rightarrow> None
      | w0 # _ \<Rightarrow>
          Some (if d = ascii ''easy'' then w0
                else if d = ascii ''hard'' then
                  foldl (\<lambda>longest current.
                           if length current > length longest then current else longest)
                        w0 words
                else words ! (r mod length words)))"

fun makeMove_part000 ::
  "caseMapping \<Rightarrow> player \<Rightarrow> jsstring \<Rightarrow> jsset \<Rightarrow> jsstring \<Rightarrow> input \<Rightarrow> jsstring option" where
  "makeMove_part000 toLowerCase (HumanPlayer n s i e u) lastWord usedWords category inp =
     Some (trim (typed inp))"
| "makeMove_part000 toLowerCase (ComputerPlayer n s i d db) lastWord usedWords category inp =
     (let availableWords = getAvailableWords toLowerCase db lastWord usedWords category
      in if length availableWords = 0 then None
         else selectWordByDifficulty d availableWords (rnd inp))"

section \<open>The game (\<open>WordGame\<close>)\<close>

text \<open>
  The fields of \<open>WordGame\<close>. \<open>#userManager\<close> (credentials and statistics kept in
  \<open>users.json\<close>) is outside this development; \<open>#updateStats\<close> writes only there.
\<close>

record user =
  user_username :: jsstring
  user_role :: jsstring
  user_email :: jsstring

record game =
  players :: "player list"
  usedWords :: jsset
  currentCategory :: jsstring
  lastWord :: jsstring
  isGameActive :: bool
  currentUser :: "user option"

subsection \<open>Starting a game\<close>

text \<open>\<open>xs[i]\<close> for an array: \<open>undefined\<close> (\<open>None\<close>) out of range.\<close>

definition itemAt :: "'a list \<Rightarrow> int \<Rightarrow> 'a option" where
  "itemAt xs i = (if 0 \<le> i \<and> i < int (length xs) then Some (xs ! nat i) else None)"

text \<open>
  \<open>#startNewGame\<close> of \<open>src/app.js\<close> up to the call of \<open>#gameLoop\<close>. The inputs are the
  two menu choices as the indices \<open>parseInt(...) - 1\<close> (a choice that does not parse
  gives \<open>NaN\<close>, which selects nothing, like an index out of range), the name typed
  when there are no players yet, and the identifiers drawn for the two new players.
  \<open>this.#currentUser.email\<close> throws when nobody is logged in.
\<close>

definition startNewGame ::
  "game \<Rightarrow> int \<Rightarrow> int \<Rightarrow> jsstring \<Rightarrow> jsstring \<Rightarrow> jsstring \<Rightarrow> error + game" where
  "startNewGame g cc dc n id1 id2 =
     (let category = (case itemAt CATEGORIES cc of Some c \<Rightarrow> c | None \<Rightarrow> CATEGORIES ! 0);
          diff = (case itemAt [ascii ''easy'', ascii ''medium'', ascii ''hard''] dc of
                    Some d \<Rightarrow> d
                  | None \<Rightarrow> ascii ''medium'')
      in if length (players g) = 0 then
           (case currentUser g of
              None \<Rightarrow> Inl TypeError
            | Some u \<Rightarrow>
                Inr (g\<lparr>currentCategory := category,
                       players := [new_HumanPlayer n (user_email u) (user_username u) id1,
                                   new_ComputerPlayer diff id2],
                       isGameActive := True, usedWords := [], lastWord := []\<rparr>))
         else
           Inr (g\<lparr>currentCategory := category,
                  players := map resetScore (players g),
                  isGameActive := True, usedWords := [], lastWord := []\<rparr>))"

text \<open>
  \<open>#startNewGame\<close> of \<open>src/unnamed/part_000\<close>: there is no choice of difficulty, and
  \<open>#setupPlayers\<close> constructs the computer player with its default.
\<close>

definition startNewGame_part000 ::
  "game \<Rightarrow> int \<Rightarrow> jsstring \<Rightarrow> jsstring \<Rightarrow> jsstring \<Rightarrow> error + game" where
  "startNewGame_part000 g cc playerName id1 id2 =
     (let category = (case itemAt CATEGORIES cc of Some c \<Rightarrow> c | None \<Rightarrow> CATEGORIES ! 0)
      in if length (players g) = 0 then
           (case currentUser g of
              None \<Rightarrow> Inl TypeError
            | Some u \<Rightarrow>
                Inr (g\<lparr>currentCategory := category,
                       players := [new_HumanPlayer playerName (user_email u) (user_username u) id1,
                                   new_ComputerPlayer_part000 (ascii ''medium'') id2],
                       isGameActive := True, usedWords := [], lastWord := []\<rparr>))
         else
           Inr (g\<lparr>currentCategory := category,
                  players := map resetScore (players g),
                  isGameActive := True, usedWords := [], lastWord := []\<rparr>))"

subsection \<open>Validation\<close>

text \<open>\<open>Validator.validateWord(w)\<close>: \<open>w && w.trim().length >= MIN_WORD_LENGTH\<close>.\<close>

definition Validator_validateWord :: "jsstring \<Rightarrow> bool" where
  "Validator_validateWord w = (w \<noteq> [] \<and> length (trim w) \<ge> MIN_WORD_LENGTH)"

text \<open>\<open>WordGame.#validateWord(w)\<close> of \<open>src/app.js\<close>.\<close>

definition validateWord ::
  "caseMapping \<Rightarrow> game \<Rightarrow> jsstring \<Rightarrow> bool" where
  "validateWord toLowerCase g w =
     (if \<not> Validator_validateWord w then False
      else
        let lw = toLowerCase w;
            llw = (if lastWord g \<noteq> [] then toLowerCase (lastWord g) else [])
        in if set_has (usedWords g) lw then False
           else if lastWord g \<noteq> [] \<and> unitAt lw 0 \<noteq> unitAt llw (int (length llw) - 1)
             then False
           else True)"

text \<open>\<open>WordGame.#validateWord(word, lastWord, usedWords)\<close> of \<open>src/unnamed/part_000\<close>.\<close>

definition validateWord_part000 ::
  "caseMapping \<Rightarrow> jsstring \<Rightarrow> jsstring \<Rightarrow> jsset \<Rightarrow> bool" where
  "validateWord_part000 toLowerCase word lastW used =
     (if word = [] \<or> length word < 2 then False
      else
        let lowerWord = toLowerCase word;
            lowerLastWord = (if lastW \<noteq> [] then toLowerCase lastW else []);
            isNewWord = \<not> set_has used lowerWord;
            isValidSequence =
              (lastW = [] \<or>
               unitAt lowerWord 0 = unitAt lowerLastWord (int (length lowerLastWord) - 1))
        in isNewWord \<and> isValidSequence)"

subsection \<open>The winner\<close>

text \<open>
  \<open>#showWinner\<close> prints \<open>this.#players.reduce((a,b) => a.score > b.score ? a : b)\<close>;
  the model returns the player it prints. \<open>reduce\<close> without an initial value throws a
  \<open>TypeError\<close> on an empty array. Both copies have the same expression.
\<close>

definition showWinner :: "player list \<Rightarrow> error + player" where
  "showWinner ps =
     (case ps of
        [] \<Rightarrow> Inl TypeError
      | p # rest \<Rightarrow> Inr (foldl (\<lambda>a b. if score a > score b then a else b) p rest))"

subsection \<open>The game loop of \<open>src/app.js\<close>\<close>

text \<open>
  The local variables of \<open>#gameLoop\<close> together with the game. \<open>winner\<close> is the player
  \<open>#showWinner\<close> has announced, if it was called; \<open>returned\<close> says that the function
  has returned.
\<close>

record loop =
  state :: game
  playerIdx :: nat
  skipped :: nat
  round_no :: nat
  winner :: "player option"
  returned :: bool

text \<open>The end of the loop body: the turn passes to the next player.\<close>

definition nextPlayer :: "loop \<Rightarrow> loop" where
  "nextPlayer l = l\<lparr>playerIdx := (playerIdx l + 1) mod length (players (state l))\<rparr>"

text \<open>\<open>this.#showWinner(); this.#updateStats(); return;\<close>\<close>

definition finish :: "loop \<Rightarrow> error + loop" where
  "finish l =
     (case showWinner (players (state l)) of
        Inl e \<Rightarrow> Inl e
      | Inr w \<Rightarrow> Inr (l\<lparr>winner := Some w, returned := True\<rparr>))"

text \<open>The branch of the loop body for a word that is truthy and valid (lines 279 to 287).\<close>

definition acceptWord ::
  "caseMapping \<Rightarrow> loop \<Rightarrow> jsstring \<Rightarrow> error + loop" where
  "acceptWord toLowerCase l word =
     (let g = state l;
          player = players g ! playerIdx l;
          lw = toLowerCase word;
          g1 = g\<lparr>usedWords := set_add (usedWords g) lw,
                 lastWord := word,
                 players := (players g)
                   [playerIdx l := addPoint (min (int (length word) div 2) 3) player]\<rparr>;
          l1 = l\<lparr>state := g1, skipped := 0, round_no := round_no l + 1\<rparr>
      in if set_size (usedWords g1) \<ge> MAX_WORDS_FOR_WIN
         then finish (l1\<lparr>state := g1\<lparr>isGameActive := False\<rparr>\<rparr>)
         else Inr (nextPlayer l1))"

text \<open>The \<open>else\<close> branch (lines 288 to 293).\<close>

definition rejectWord :: "loop \<Rightarrow> error + loop" where
  "rejectWord l =
     (let l1 = l\<lparr>skipped := skipped l + 1\<rparr>
      in if skipped l1 \<ge> MAX_SKIPPED_TURNS then finish l1 else Inr (nextPlayer l1))"

text \<open>
  One iteration of the \<open>while\<close> loop. \<open>this.#players[playerIdx]\<close> is \<open>undefined\<close> when
  the index is out of range, and reading \<open>player.name\<close> then throws.
\<close>

definition turn ::
  "caseMapping \<Rightarrow> loop \<Rightarrow> input \<Rightarrow> error + loop" where
  "turn toLowerCase l inp =
     (let g = state l
      in if playerIdx l \<ge> length (players g) then Inl TypeError
         else
           let player = players g ! playerIdx l;
               word = makeMove toLowerCase player (lastWord g) (usedWords g)
                        (currentCategory g) inp
           in case word of
                None \<Rightarrow> rejectWord l
              | Some w \<Rightarrow>
                  if w \<noteq> [] \<and> validateWord toLowerCase g w then acceptWord toLowerCase l w
                  else rejectWord l)"

text \<open>The condition of the \<open>while\<close> loop, and whether the function is over.\<close>

definition continues :: "loop \<Rightarrow> bool" where
  "continues l = (isGameActive (state l) \<and> skipped l < MAX_SKIPPED_TURNS)"

text \<open>
  \<open>#gameLoop\<close> run on the inputs of the turns. When the inputs are used up and the
  loop has not ended, the result is the loop waiting for its next move.
\<close>

fun gameLoop_from ::
  "caseMapping \<Rightarrow> loop \<Rightarrow> input list \<Rightarrow> error + loop" where
  "gameLoop_from toLowerCase l [] =
     (if returned l \<or> \<not> continues l then Inr (l\<lparr>returned := True\<rparr>) else Inr l)"
| "gameLoop_from toLowerCase l (inp # inps) =
     (if returned l \<or> \<not> continues l then Inr (l\<lparr>returned := True\<rparr>)
      else case turn toLowerCase l inp of
             Inl e \<Rightarrow> Inl e
           | Inr l' \<Rightarrow> gameLoop_from toLowerCase l' inps)"

text \<open>The local variables at the entry: \<open>let playerIdx = 0, skipped = 0, round = 1\<close>.\<close>

definition enter :: "game \<Rightarrow> loop" where
  "enter g =
     \<lparr>state = g, playerIdx = 0, skipped = 0, round_no = 1, winner = None, returned = False\<rparr>"

definition gameLoop ::
  "caseMapping \<Rightarrow> game \<Rightarrow> input list \<Rightarrow> error + loop" where
  "gameLoop toLowerCase g inps = gameLoop_from toLowerCase (enter g) inps"

text \<open>
  The value of \<open>word\<close> in an iteration, and the condition
  \<open>word && this.#validateWord(word)\<close> under which it is accepted.
\<close>

definition submission ::
  "caseMapping \<Rightarrow> loop \<Rightarrow> input \<Rightarrow> jsstring option" where
  "submission toLowerCase l inp =
     makeMove toLowerCase (players (state l) ! playerIdx l) (lastWord (state l))
       (usedWords (state l)) (currentCategory (state l)) inp"

definition accepts :: "caseMapping \<Rightarrow> loop \<Rightarrow> input \<Rightarrow> bool" where
  "accepts toLowerCase l inp =
     (case submission toLowerCase l inp of
        None \<Rightarrow> False
      | Some w \<Rightarrow> w \<noteq> [] \<and> validateWord toLowerCase (state l) w)"

subsection \<open>The game loop of \<open>src/unnamed/part_000\<close>\<close>

text \<open>
  After a win the loop looks for the human player and, if it has a user name, compares
  its score with \<open>this.#players[1].score\<close>, which throws when there is one player only.
  The result goes to the user statistics.
\<close>

definition isWin_part000 :: "player list \<Rightarrow> error + bool option" where
  "isWin_part000 ps =
     (case find is_HumanPlayer ps of
        None \<Rightarrow> Inr None
      | Some humanPlayer \<Rightarrow>
          if username humanPlayer = [] then Inr None
          else if length ps < 2 then Inl TypeError
          else Inr (Some (score humanPlayer > score (ps ! 1))))"

text \<open>
  The last statement of the loop body (lines 346 to 355): with five used words the
  game is no longer active, the winner is announced and the statistics are written.
\<close>

definition wordCountCheck_part000 :: "loop \<Rightarrow> error + loop" where
  "wordCountCheck_part000 l =
     (if set_size (usedWords (state l)) \<ge> 5 then
        (case showWinner (players (state l)) of
           Inl e \<Rightarrow> Inl e
         | Inr w \<Rightarrow>
             (case isWin_part000 (players (state l)) of
                Inl e \<Rightarrow> Inl e
              | Inr _ \<Rightarrow>
                  Inr (l\<lparr>state := (state l)\<lparr>isGameActive := False\<rparr>,
                         winner := Some w\<rparr>)))
      else Inr l)"

text \<open>
  One iteration of the \<open>while\<close> loop (lines 330 to 355). This copy has no round counter
  (\<open>round_no\<close> stays as it is) and awards one point (\<open>addPoint()\<close>) for every accepted
  word; the check of the word count comes after the turn has passed on.
\<close>

definition turn_part000 ::
  "caseMapping \<Rightarrow> loop \<Rightarrow> input \<Rightarrow> error + loop" where
  "turn_part000 toLowerCase l inp =
     (let g = state l
      in if playerIdx l \<ge> length (players g) then Inl TypeError
         else
           let player = players g ! playerIdx l;
               word = makeMove_part000 toLowerCase player (lastWord g) (usedWords g)
                        (currentCategory g) inp;
               l1 = (case word of
                       None \<Rightarrow> l\<lparr>skipped := skipped l + 1\<rparr>
                     | Some w \<Rightarrow>
                         if w \<noteq> [] \<and> validateWord_part000 toLowerCase w (lastWord g) (usedWords g)
                         then l\<lparr>state := g\<lparr>usedWords := set_add (usedWords g) (toLowerCase w),
                                            lastWord := w,
                                            players := (players g)
                                              [playerIdx l := addPoint 1 player]\<rparr>,
                                skipped := 0\<rparr>
                         else l\<lparr>skipped := skipped l + 1\<rparr>)
           in wordCountCheck_part000 (nextPlayer l1))"

text \<open>The statement after the loop: \<open>if (skippedTurns >= 2) this.#showWinner()\<close>.\<close>

definition afterLoop_part000 :: "loop \<Rightarrow> error + loop" where
  "afterLoop_part000 l =
     (if returned l then Inr l
      else if skipped l \<ge> 2 then finish l
      else Inr (l\<lparr>returned := True\<rparr>))"

definition continues_part000 :: "loop \<Rightarrow> bool" where
  "continues_part000 l = (isGameActive (state l) \<and> skipped l < 2)"

fun gameLoop_from_part000 ::
  "caseMapping \<Rightarrow> loop \<Rightarrow> input list \<Rightarrow> error + loop" where
  "gameLoop_from_part000 toLowerCase l [] =
     (if returned l \<or> \<not> continues_part000 l then afterLoop_part000 l else Inr l)"
| "gameLoop_from_part000 toLowerCase l (inp # inps) =
     (if returned l \<or> \<not> continues_part000 l then afterLoop_part000 l
      else case turn_part000 toLowerCase l inp of
             Inl e \<Rightarrow> Inl e
           | Inr l' \<Rightarrow> gameLoop_from_part000 toLowerCase l' inps)"

definition gameLoop_part000 ::
  "caseMapping \<Rightarrow> game \<Rightarrow> input list \<Rightarrow> error + loop" where
  "gameLoop_part000 toLowerCase g inps = gameLoop_from_part000 toLowerCase (enter g) inps"

text \<open>The value of \<open>word\<close> and the condition of the \<open>if\<close> in this copy.\<close>

definition submission_part000 ::
  "caseMapping \<Rightarrow> loop \<Rightarrow> input \<Rightarrow> jsstring option" where
  "submission_part000 toLowerCase l inp =
     makeMove_part000 toLowerCase (players (state l) ! playerIdx l) (lastWord (state l))
       (usedWords (state l)) (currentCategory (state l)) inp"

definition accepts_part000 :: "caseMapping \<Rightarrow> loop \<Rightarrow> input \<Rightarrow> bool" where
  "accepts_part000 toLowerCase l inp =
     (case submission_part000 toLowerCase l inp of
        None \<Rightarrow> False
      | Some w \<Rightarrow>
          w \<noteq> [] \<and>
          validateWord_part000 toLowerCase w (lastWord (state l)) (usedWords (state l)))"

section \<open>Snapshots (\<open>serialize\<close> and \<open>deserialize\<close>)\<close>

text \<open>
  The plain objects written by \<open>serialize\<close> and read by \<open>deserialize\<close>. A property
  that \<open>deserialize\<close> reads through \<open>||\<close>, or compares with a tag, may be absent
  (\<open>None\<close>); \<open>name\<close>, \<open>score\<close> and \<open>id\<close> are copied as they are.
\<close>

record playerData =
  data_name :: jsstring
  data_score :: int
  data_id :: jsstring
  data_type :: "jsstring option"
  data_difficulty :: "jsstring option"
  data_email :: "jsstring option"
  data_username :: "jsstring option"

record snapshot =
  data_players :: "playerData list option"
  data_usedWords :: "jsstring list option"
  data_currentCategory :: "jsstring option"
  data_lastWord :: "jsstring option"
  data_isGameActive :: "bool option"
  data_currentUser :: "user option"

text \<open>\<open>x || d\<close> for a string property: an absent property and the empty string are falsy.\<close>

definition orString :: "jsstring option \<Rightarrow> jsstring \<Rightarrow> jsstring" where
  "orString x d = (case x of None \<Rightarrow> d | Some v \<Rightarrow> if v = [] then d else v)"

text \<open>\<open>x || false\<close> for a boolean property, and \<open>x || []\<close> for an array (always truthy).\<close>

definition orFalse :: "bool option \<Rightarrow> bool" where
  "orFalse x = (case x of None \<Rightarrow> False | Some b \<Rightarrow> b)"

definition orEmpty :: "jsstring list option \<Rightarrow> jsstring list" where
  "orEmpty x = (case x of None \<Rightarrow> [] | Some xs \<Rightarrow> xs)"

text \<open>
  \<open>serialize()\<close> of \<open>Player\<close>, extended by \<open>HumanPlayer\<close> and \<open>ComputerPlayer\<close>; the tag
  \<open>type\<close> is the name of the class.
\<close>

definition serialize_player :: "player \<Rightarrow> playerData" where
  "serialize_player p =
     (case p of
        HumanPlayer n s i e u \<Rightarrow>
          \<lparr>data_name = n, data_score = s, data_id = i,
           data_type = Some (ascii ''HumanPlayer''),
           data_difficulty = None, data_email = Some e, data_username = Some u\<rparr>
      | ComputerPlayer n s i d db \<Rightarrow>
          \<lparr>data_name = n, data_score = s, data_id = i,
           data_type = Some (ascii ''ComputerPlayer''),
           data_difficulty = Some d, data_email = None, data_username = None\<rparr>)"

text \<open>\<open>deserialize(d)\<close> of the two classes in \<open>src/app.js\<close>, called on an existing object.\<close>

definition deserialize_player :: "player \<Rightarrow> playerData \<Rightarrow> player" where
  "deserialize_player p d =
     (case p of
        HumanPlayer n s i e u \<Rightarrow>
          HumanPlayer (data_name d) (data_score d) (data_id d)
            (orString (data_email d) []) (orString (data_username d) [])
      | ComputerPlayer n s i df db \<Rightarrow>
          ComputerPlayer (data_name d) (data_score d) (data_id d)
            (orString (data_difficulty d) (ascii ''medium'')) db)"

text \<open>
  In \<open>src/unnamed/part_000\<close>, \<open>ComputerPlayer.deserialize\<close> also replaces the word
  database by one with an empty list for each category.
\<close>

definition deserialize_player_part000 :: "player \<Rightarrow> playerData \<Rightarrow> player" where
  "deserialize_player_part000 p d =
     (case p of
        HumanPlayer n s i e u \<Rightarrow>
          HumanPlayer (data_name d) (data_score d) (data_id d)
            (orString (data_email d) []) (orString (data_username d) [])
      | ComputerPlayer n s i df db \<Rightarrow>
          ComputerPlayer (data_name d) (data_score d) (data_id d)
            (orString (data_difficulty d) (ascii ''medium''))
            [([1075, 1086, 1088, 1086, 1076, 1072], []),
             ([1078, 1080, 1074, 1086, 1090, 1085, 1099, 1077], []),
             ([1088, 1072, 1089, 1090, 1077, 1085, 1080, 1103], [])])"

text \<open>\<open>WordGame.serialize()\<close>, the same in both copies.\<close>

definition serialize :: "game \<Rightarrow> snapshot" where
  "serialize g =
     \<lparr>data_players = Some (map serialize_player (players g)),
      data_usedWords = Some (Array_from (usedWords g)),
      data_currentCategory = Some (currentCategory g),
      data_lastWord = Some (lastWord g),
      data_isGameActive = Some (isGameActive g),
      data_currentUser = currentUser g\<rparr>"

text \<open>
  The callback of \<open>data.players.map\<close>: a player of the class the tag names (a human
  player for every other tag) is constructed and filled from the data. The identifier
  the constructor draws is overwritten at once, so the empty string stands for it.
\<close>

definition restorePlayer :: "playerData \<Rightarrow> player" where
  "restorePlayer playerData =
     (let player = (if data_type playerData = Some (ascii ''ComputerPlayer'')
                    then new_ComputerPlayer (ascii ''medium'') []
                    else new_HumanPlayer [] [] [] [])
      in deserialize_player player playerData)"

definition restorePlayer_part000 :: "playerData \<Rightarrow> player" where
  "restorePlayer_part000 playerData =
     (let player = (if data_type playerData = Some (ascii ''ComputerPlayer'')
                    then new_ComputerPlayer_part000 (ascii ''medium'') []
                    else new_HumanPlayer [] [] [] [])
      in deserialize_player_part000 player playerData)"

text \<open>
  \<open>WordGame.deserialize(data)\<close>. \<open>data.players.map\<close> throws a \<open>TypeError\<close> when
  \<open>data.players\<close> is absent.
\<close>

definition deserialize :: "game \<Rightarrow> snapshot \<Rightarrow> error + game" where
  "deserialize g data =
     (case data_players data of
        None \<Rightarrow> Inl TypeError
      | Some ps \<Rightarrow>
          Inr (g\<lparr>players := map restorePlayer ps,
                 usedWords := new_Set (orEmpty (data_usedWords data)),
                 currentCategory := orString (data_currentCategory data) [],
                 lastWord := orString (data_lastWord data) [],
                 isGameActive := orFalse (data_isGameActive data),
                 currentUser := data_currentUser data\<rparr>))"

definition deserialize_part000 :: "game \<Rightarrow> snapshot \<Rightarrow> error + game" where
  "deserialize_part000 g data =
     (case data_players data of
        None \<Rightarrow> Inl TypeError
      | Some ps \<Rightarrow>
          Inr (g\<lparr>players := map restorePlayer_part000 ps,
                 usedWords := new_Set (orEmpty (data_usedWords data)),
                 currentCategory := orString (data_currentCategory data) [],
                 lastWord := orString (data_lastWord data) [],
                 isGameActive := orFalse (data_isGameActive data),
                 currentUser := data_currentUser data\<rparr>))"

section \<open>Example games\<close>

text \<open>
  A game of two human players, Ann and Bob, as it stands when the loop is entered, and
  the input of a turn in which the line \<open>s\<close> is typed.
\<close>

definition twoHumans :: game where
  "twoHumans =
     \<lparr>players = [HumanPlayer (ascii ''Ann'') 0 (ascii ''a1'') [] (ascii ''ann''),
                 HumanPlayer (ascii ''Bob'') 0 (ascii ''b1'') [] []],
      usedWords = [], currentCategory = [1075, 1086, 1088, 1086, 1076, 1072],
      lastWord = [], isGameActive = True, currentUser = None\<rparr>"

definition types :: "string \<Rightarrow> input" where
  "types s = \<lparr>typed = ascii s, rnd = 0\<rparr>"


text \<open>
  The examples are played with words of Basic Latin letters and with the Cyrillic words
  of the word database. On a string whose code units all lie in U+0000..U+007F or in
  U+0400..U+045F, \<open>String.prototype.toLowerCase\<close> works unit by unit: it adds 32 to
  \<open>A..Z\<close> and to U+0410..U+042F, adds 80 to U+0400..U+040F and keeps every other unit.
  \<open>lowerLatinCyrillic\<close> is that mapping, and the examples pass it for \<open>toLowerCase\<close>. It
  is applied to strings of these code units only; on any other code unit it says nothing
  about the program.
\<close>

definition lowerLatinCyrillicUnit :: "jschar \<Rightarrow> jschar" where
  "lowerLatinCyrillicUnit c =
     (if 65 \<le> c \<and> c \<le> 90 then c + 32
      else if 1040 \<le> c \<and> c \<le> 1071 then c + 32
      else if 1024 \<le> c \<and> c \<le> 1039 then c + 80
      else c)"

definition lowerLatinCyrillic :: caseMapping where
  "lowerLatinCyrillic s = map lowerLatinCyrillicUnit s"

text \<open>
  A game of Ann against the hard computer of \<open>src/app.js\<close>, after Ann's first word
  Moscow, and a snapshot that has nothing but its players: the computer without a
  difficulty, and Ann without tag, e-mail address and user name.
\<close>

definition savedGame :: game where
  "savedGame =
     \<lparr>players = [HumanPlayer (ascii ''Ann'') 3 (ascii ''a1'') [] (ascii ''ann''),
                 ComputerPlayer [1050, 1086, 1084, 1087, 1100, 1102, 1090, 1077, 1088] 0
                   (ascii ''c1'') (ascii ''hard'') initializeWordDatabase],
      usedWords = [ascii ''moscow''],
      currentCategory = [1075, 1086, 1088, 1086, 1076, 1072],
      lastWord = ascii ''Moscow'', isGameActive = True,
      currentUser = Some \<lparr>user_username = ascii ''ann'', user_role = ascii ''user'',
                           user_email = []\<rparr>\<rparr>"

definition bareSnapshot :: snapshot where
  "bareSnapshot =
     \<lparr>data_players =
        Some [\<lparr>data_name = [1050, 1086, 1084, 1087, 1100, 1102, 1090, 1077, 1088],
               data_score = 0, data_id = ascii ''c1'',
               data_type = Some (ascii ''ComputerPlayer''),
               data_difficulty = None, data_email = None, data_username = None\<rparr>,
              \<lparr>data_name = ascii ''Ann'', data_score = 3, data_id = ascii ''a1'',
               data_type = None,
               data_difficulty = None, data_email = None, data_username = None\<rparr>],
      data_usedWords = None, data_currentCategory = None, data_lastWord = None,
      data_isGameActive = None, data_currentUser = None\<rparr>"

section \<open>The computer's word selection\<close>

lemma fitsChain_iff:
  "fitsChain toLowerCase lw used w \<longleftrightarrow>
     \<not> set_has used (toLowerCase w) \<and>
     (lw = [] \<or>
      unitAt (toLowerCase w) 0 = unitAt (toLowerCase lw) (int (length (toLowerCase lw)) - 1))"
  by (simp add: fitsChain_def Let_def)

lemma makeMove_None_iff:
  "makeMove toLowerCase (ComputerPlayer n s i d db) lw used cat inp = None \<longleftrightarrow>
     words_of toLowerCase db lw used cat = []"
  by (simp add: Let_def)

lemma makeMove_part000_None_iff:
  "makeMove_part000 toLowerCase (ComputerPlayer n s i d db) lw used cat inp = None \<longleftrightarrow>
     getAvailableWords toLowerCase db lw used cat = []"
  by (simp add: Let_def selectWordByDifficulty_def split: list.splits)

text \<open>
  Concrete facts about the database of \<open>src/app.js\<close>, for the last word Rim: the
  candidates in the category of cities are Moskva and Madrid, in this order.
\<close>

lemma cities_app:
  "categoryWords initializeWordDatabase [1075, 1086, 1088, 1086, 1076, 1072] =
     [[1052, 1086, 1089, 1082, 1074, 1072],
      [1040, 1084, 1089, 1090, 1077, 1088, 1076, 1072, 1084],
      [1052, 1072, 1076, 1088, 1080, 1076],
      [1051, 1086, 1085, 1076, 1086, 1085],
      [1054, 1089, 1083, 1086],
      [1050, 1080, 1077, 1074],
      [1042, 1072, 1088, 1096, 1072, 1074, 1072],
      [1056, 1080, 1084],
      [1055, 1072, 1088, 1080, 1078],
      [1041, 1077, 1088, 1083, 1080, 1085]]"
  by (simp add: categoryWords_def initializeWordDatabase_def)

lemma words_after_Rim:
  "words_of lowerLatinCyrillic initializeWordDatabase [1056, 1080, 1084] [[1088, 1080, 1084]]
     [1075, 1086, 1088, 1086, 1076, 1072] =
   [[1052, 1086, 1089, 1082, 1074, 1072], [1052, 1072, 1076, 1088, 1080, 1076]]"
  unfolding words_of_def cities_app
  by (simp add: fitsChain_def Let_def lowerLatinCyrillic_def lowerLatinCyrillicUnit_def unitAt_def
      set_has_def)

lemma selected_hard_Moskva_Madrid:
  "selected (ascii ''hard'')
     [[1052, 1086, 1089, 1082, 1074, 1072], [1052, 1072, 1076, 1088, 1080, 1076]] r =
   [1052, 1072, 1076, 1088, 1080, 1076]"
  by (simp add: selected_def ascii_def)

lemma selectWordByDifficulty_hard_Moskva_Madrid:
  "selectWordByDifficulty (ascii ''hard'')
     [[1052, 1086, 1089, 1082, 1074, 1072], [1052, 1072, 1076, 1088, 1080, 1076]] r =
   Some [1052, 1086, 1089, 1082, 1074, 1072]"
  by (simp add: selectWordByDifficulty_def ascii_def)

text \<open>
  C8. In both copies the computer's candidates are exactly the words of the category's
  list whose lower-cased form is not in the used set and whose first lower-cased code
  unit is the last one of the lower-cased last word (any word when the last word is
  empty), and \<open>makeMove\<close> returns \<open>null\<close> exactly when there is no candidate.
\<close>

theorem candidate_set_exact:
  "set (words_of toLowerCase db lw used cat) =
     {w \<in> set (categoryWords db cat).
        \<not> set_has used (toLowerCase w) \<and>
        (lw = [] \<or>
         unitAt (toLowerCase w) 0 = unitAt (toLowerCase lw) (int (length (toLowerCase lw)) - 1))}
   \<and> set (getAvailableWords toLowerCase db lw used cat) =
     {w \<in> set (categoryWords db cat).
        \<not> set_has used (toLowerCase w) \<and>
        (lw = [] \<or>
         unitAt (toLowerCase w) 0 = unitAt (toLowerCase lw) (int (length (toLowerCase lw)) - 1))}
   \<and> (makeMove toLowerCase (ComputerPlayer n s i d db) lw used cat inp = None \<longleftrightarrow>
        set (words_of toLowerCase db lw used cat) = {})
   \<and> (makeMove_part000 toLowerCase (ComputerPlayer n s i d db) lw used cat inp = None \<longleftrightarrow>
        set (getAvailableWords toLowerCase db lw used cat) = {})"
proof -
  have a: "set (words_of toLowerCase db lw used cat) =
     {w \<in> set (categoryWords db cat).
        \<not> set_has used (toLowerCase w) \<and>
        (lw = [] \<or>
         unitAt (toLowerCase w) 0 = unitAt (toLowerCase lw) (int (length (toLowerCase lw)) - 1))}"
    unfolding words_of_def set_filter fitsChain_iff ..
  have b: "set (getAvailableWords toLowerCase db lw used cat) =
     {w \<in> set (categoryWords db cat).
        \<not> set_has used (toLowerCase w) \<and>
        (lw = [] \<or>
         unitAt (toLowerCase w) 0 = unitAt (toLowerCase lw) (int (length (toLowerCase lw)) - 1))}"
    unfolding getAvailableWords_def Let_def set_filter fitsChain_iff ..
  have c: "makeMove toLowerCase (ComputerPlayer n s i d db) lw used cat inp = None \<longleftrightarrow>
        set (words_of toLowerCase db lw used cat) = {}"
    unfolding makeMove_None_iff by simp
  have d: "makeMove_part000 toLowerCase (ComputerPlayer n s i d db) lw used cat inp = None \<longleftrightarrow>
        set (getAvailableWords toLowerCase db lw used cat) = {}"
    unfolding makeMove_part000_None_iff by simp
  from a b c d show ?thesis by blast
qed

theorem candidate_set_exact_witness:
  "{w \<in> set (categoryWords initializeWordDatabase [1075, 1086, 1088, 1086, 1076, 1072]).
      \<not> set_has [[1088, 1080, 1084]] (lowerLatinCyrillic w) \<and>
      ([1056, 1080, 1084] = ([] :: jsstring) \<or>
       unitAt (lowerLatinCyrillic w) 0 =
       unitAt (lowerLatinCyrillic [1056, 1080, 1084])
         (int (length (lowerLatinCyrillic [1056, 1080, 1084])) - 1))}
   = {[1052, 1086, 1089, 1082, 1074, 1072], [1052, 1072, 1076, 1088, 1080, 1076]}
   \<and> makeMove lowerLatinCyrillic (ComputerPlayer [] 0 [] (ascii ''hard'') initializeWordDatabase)
        [1056, 1080, 1084] [[1088, 1080, 1084]] [1075, 1086, 1088, 1086, 1076, 1072]
        \<lparr>typed = [], rnd = 0\<rparr> \<noteq> None"
  using candidate_set_exact
          [of lowerLatinCyrillic initializeWordDatabase "[1056, 1080, 1084]" "[[1088, 1080, 1084]]"
              "[1075, 1086, 1088, 1086, 1076, 1072]" "[]" 0 "[]" "ascii ''hard''"
              "\<lparr>typed = [], rnd = 0\<rparr>"]
  unfolding words_after_Rim by auto

text \<open>
  The two reductions that pick the longest word: the one of
  \<open>src/unnamed/part_000\<close> keeps the accumulator unless the current word is strictly
  longer, the one of \<open>src/app.js\<close> keeps it only if it is strictly longer.
\<close>

lemma keep_first_longest:
  "\<exists>pre post.
      a # xs = pre @ foldl (\<lambda>longest current.
                 if length current > length longest then current else longest) a xs # post
      \<and> (\<forall>x\<in>set pre. length x < length (foldl (\<lambda>longest current.
                 if length current > length longest then current else longest) a xs))
      \<and> (\<forall>x\<in>set post. length x \<le> length (foldl (\<lambda>longest current.
                 if length current > length longest then current else longest) a xs))"
proof (induction xs rule: rev_induct)
  case Nil
  show ?case by (rule exI [of _ "[]"], rule exI [of _ "[]"]) simp
next
  case (snoc x xs)
  let ?f = "\<lambda>longest current::'a list.
              if length current > length longest then current else longest"
  let ?r = "foldl ?f a xs"
  from snoc obtain pre post where d: "a # xs = pre @ ?r # post"
    and p1: "\<forall>y\<in>set pre. length y < length ?r"
    and p2: "\<forall>y\<in>set post. length y \<le> length ?r"
    by blast
  show ?case
  proof (cases "length x > length ?r")
    case True
    then have r: "foldl ?f a (xs @ [x]) = x" by simp
    have e: "a # xs @ [x] = (pre @ ?r # post) @ x # []" using d by simp
    have "\<forall>y\<in>set (pre @ ?r # post). length y < length x"
      using p1 p2 True by auto
    with e show ?thesis unfolding r
      by (intro exI [of _ "pre @ ?r # post"] exI [of _ "[]"]) simp
  next
    case False
    then have r: "foldl ?f a (xs @ [x]) = ?r" by simp
    have e: "a # xs @ [x] = pre @ ?r # (post @ [x])" using d by simp
    have "\<forall>y\<in>set (post @ [x]). length y \<le> length ?r" using p2 False by auto
    with e p1 show ?thesis unfolding r
      by (intro exI [of _ pre] exI [of _ "post @ [x]"]) simp
  qed
qed

lemma keep_last_longest:
  "\<exists>pre post.
      a # xs = pre @ foldl (\<lambda>a b. if length a > length b then a else b) a xs # post
      \<and> (\<forall>x\<in>set pre.
            length x \<le> length (foldl (\<lambda>a b. if length a > length b then a else b) a xs))
      \<and> (\<forall>x\<in>set post.
            length x < length (foldl (\<lambda>a b. if length a > length b then a else b) a xs))"
proof (induction xs rule: rev_induct)
  case Nil
  show ?case by (rule exI [of _ "[]"], rule exI [of _ "[]"]) simp
next
  case (snoc x xs)
  let ?f = "\<lambda>a b::'a list. if length a > length b then a else b"
  let ?r = "foldl ?f a xs"
  from snoc obtain pre post where d: "a # xs = pre @ ?r # post"
    and p1: "\<forall>y\<in>set pre. length y \<le> length ?r"
    and p2: "\<forall>y\<in>set post. length y < length ?r"
    by blast
  show ?case
  proof (cases "length ?r > length x")
    case True
    then have r: "foldl ?f a (xs @ [x]) = ?r" by simp
    have e: "a # xs @ [x] = pre @ ?r # (post @ [x])" using d by simp
    have "\<forall>y\<in>set (post @ [x]). length y < length ?r" using p2 True by auto
    with e p1 show ?thesis unfolding r
      by (intro exI [of _ pre] exI [of _ "post @ [x]"]) simp
  next
    case False
    then have r: "foldl ?f a (xs @ [x]) = x" by simp
    have e: "a # xs @ [x] = (pre @ ?r # post) @ x # []" using d by simp
    have "\<forall>y\<in>set (pre @ ?r # post). length y \<le> length x"
      using p1 p2 False by auto
    with e show ?thesis unfolding r
      by (intro exI [of _ "pre @ ?r # post"] exI [of _ "[]"]) simp
  qed
qed

text \<open>
  C7, as stated, fails on \<open>src/app.js\<close>: after the word Rim the hard computer has the
  candidates Moskva and Madrid, both of length 6, and answers Madrid, the later one.
\<close>

theorem hard_selector_earliest_counterexample:
  "words_of lowerLatinCyrillic initializeWordDatabase [1056, 1080, 1084] [[1088, 1080, 1084]]
     [1075, 1086, 1088, 1086, 1076, 1072] =
   [[1052, 1086, 1089, 1082, 1074, 1072], [1052, 1072, 1076, 1088, 1080, 1076]]
   \<and> length [1052, 1086, 1089, 1082, 1074, 1072 :: nat] =
     length [1052, 1072, 1076, 1088, 1080, 1076 :: nat]
   \<and> makeMove lowerLatinCyrillic (new_ComputerPlayer (ascii ''hard'') [])
       [1056, 1080, 1084] [[1088, 1080, 1084]] [1075, 1086, 1088, 1086, 1076, 1072]
       \<lparr>typed = [], rnd = 0\<rparr> =
     Some [1052, 1072, 1076, 1088, 1080, 1076]"
  unfolding new_ComputerPlayer_def makeMove.simps words_after_Rim Let_def
    selected_hard_Moskva_Madrid
  by simp

text \<open>
  C7, amended. For every non-empty candidate list the hard selector returns a candidate
  of maximum length. Among the candidates of maximum length, the copy
  \<open>src/unnamed/part_000\<close> returns the earliest in the list (every candidate before it is
  strictly shorter), and \<open>src/app.js\<close> returns the latest (every candidate after it is
  strictly shorter).
\<close>

theorem hard_selector_longest:
  assumes "words \<noteq> []"
  shows "(\<exists>w pre post. selectWordByDifficulty (ascii ''hard'') words r = Some w
            \<and> words = pre @ w # post
            \<and> (\<forall>x\<in>set pre. length x < length w) \<and> (\<forall>x\<in>set post. length x \<le> length w))
       \<and> (\<exists>pre post. words = pre @ selected (ascii ''hard'') words r # post
            \<and> (\<forall>x\<in>set pre. length x \<le> length (selected (ascii ''hard'') words r))
            \<and> (\<forall>x\<in>set post. length x < length (selected (ascii ''hard'') words r)))"
proof -
  from assms obtain w0 rest where w: "words = w0 # rest" by (cases words) auto
  have ne: "ascii ''hard'' \<noteq> ascii ''easy''" by (simp add: ascii_def)
  have b: "selectWordByDifficulty (ascii ''hard'') words r =
        Some (foldl (\<lambda>longest current.
                if length current > length longest then current else longest) w0 rest)"
    using ne by (simp add: selectWordByDifficulty_def w)
  have a: "selected (ascii ''hard'') words r =
        foldl (\<lambda>a b. if length a > length b then a else b) w0 rest"
    using ne by (simp add: selected_def w)
  show ?thesis
    unfolding a b using keep_first_longest [of w0 rest] keep_last_longest [of w0 rest] w
    by blast
qed

theorem hard_selector_longest_witness:
  "[[1052, 1086, 1089, 1082, 1074, 1072], [1052, 1072, 1076, 1088, 1080, 1076]]
     \<noteq> ([] :: jsstring list)
   \<and> (\<exists>w pre post.
         selectWordByDifficulty (ascii ''hard'')
           [[1052, 1086, 1089, 1082, 1074, 1072], [1052, 1072, 1076, 1088, 1080, 1076]] 0 = Some w
         \<and> [[1052, 1086, 1089, 1082, 1074, 1072], [1052, 1072, 1076, 1088, 1080, 1076]] =
             pre @ w # post
         \<and> (\<forall>x\<in>set pre. length x < length w) \<and> (\<forall>x\<in>set post. length x \<le> length w))
   \<and> selectWordByDifficulty (ascii ''hard'')
         [[1052, 1086, 1089, 1082, 1074, 1072], [1052, 1072, 1076, 1088, 1080, 1076]] 0 =
       Some [1052, 1086, 1089, 1082, 1074, 1072]
   \<and> selected (ascii ''hard'')
         [[1052, 1086, 1089, 1082, 1074, 1072], [1052, 1072, 1076, 1088, 1080, 1076]] 0 =
       [1052, 1072, 1076, 1088, 1080, 1076]"
proof -
  have ne: "[[1052, 1086, 1089, 1082, 1074, 1072], [1052, 1072, 1076, 1088, 1080, 1076]]
     \<noteq> ([] :: jsstring list)" by simp
  note t = hard_selector_longest [OF ne, of 0]
  show ?thesis
    by (intro conjI ne t [THEN conjunct1] selected_hard_Moskva_Madrid
          selectWordByDifficulty_hard_Moskva_Madrid)
qed

section \<open>Validation of a submitted word\<close>

lemma trim_whitespace_only:
  assumes "\<forall>c\<in>set w. isWhitespace c"
  shows "trim w = []"
proof -
  have d: "dropWhile isWhitespace w = []" using assms by (induction w) auto
  show ?thesis unfolding trim_def d by simp
qed

lemma Validator_validateWord_iff:
  "Validator_validateWord w \<longleftrightarrow> \<not> (w = [] \<or> (\<forall>c\<in>set w. isWhitespace c) \<or> length (trim w) < 2)"
proof -
  have "length (trim w) < 2" if "w = [] \<or> (\<forall>c\<in>set w. isWhitespace c)"
    using that trim_whitespace_only [of w] by auto
  then show ?thesis
    unfolding Validator_validateWord_def MIN_WORD_LENGTH_def by fastforce
qed

text \<open>
  Whatever the lower-case mapping is, a word whose lower-cased form is in the used set is
  not valid: so a word that differs from a used one only by the case of a letter is
  turned down, in any alphabet.
\<close>

lemma validateWord_used:
  "set_has (usedWords g) (toLowerCase w) \<Longrightarrow> \<not> validateWord toLowerCase g w"
  by (simp add: validateWord_def Let_def)

text \<open>
  For instance, in the game of the words U+0061 U+00E9 (a, e acute) and U+00E9 U+0061,
  the word U+0061 U+00C9 (a, E acute) is turned down under every mapping that lower-cases
  E acute, as the engine's does.
\<close>

lemma validateWord_used_E_acute:
  assumes "toLowerCase [97, 201] = [97, 233]"
  shows "\<not> validateWord toLowerCase
             \<lparr>players = ps, usedWords = [[97, 233], [233, 97]], currentCategory = cat,
              lastWord = [233, 97], isGameActive = True, currentUser = u\<rparr> [97, 201]"
  by (rule validateWord_used) (simp add: assms set_has_def)

text \<open>
  C4. A submitted word fails the test \<open>word && this.#validateWord(word)\<close> of
  \<open>src/app.js\<close> if and only if it is empty or consists of white space only, or its
  trimmed length is below 2, or its lower-cased form is in the used set, or there is a
  last word and the first code unit of the lower-cased word differs from the last code
  unit of the lower-cased last word. The lower-cased forms are those of \<open>toLowerCase\<close>,
  whatever this mapping does.
\<close>

theorem rejected_iff:
  "\<not> (w \<noteq> [] \<and> validateWord toLowerCase g w) \<longleftrightarrow>
     (w = [] \<or> (\<forall>c\<in>set w. isWhitespace c))
     \<or> length (trim w) < 2
     \<or> set_has (usedWords g) (toLowerCase w)
     \<or> (lastWord g \<noteq> [] \<and>
         unitAt (toLowerCase w) 0 \<noteq>
         unitAt (toLowerCase (lastWord g)) (int (length (toLowerCase (lastWord g))) - 1))"
  unfolding validateWord_def Validator_validateWord_iff Let_def by auto

theorem rejected_iff_witness:
  "\<not> (ascii ''Oslo'' \<noteq> [] \<and>
      validateWord lowerLatinCyrillic
        \<lparr>players = [], usedWords = [ascii ''moscow''], currentCategory = [],
         lastWord = ascii ''Moscow'', isGameActive = True, currentUser = None\<rparr> (ascii ''Oslo''))
   \<and> unitAt (lowerLatinCyrillic (ascii ''Oslo'')) 0 = Some 111
   \<and> unitAt (lowerLatinCyrillic (ascii ''Moscow''))
         (int (length (lowerLatinCyrillic (ascii ''Moscow''))) - 1) = Some 119"
proof -
  have a: "unitAt (lowerLatinCyrillic (ascii ''Oslo'')) 0 = Some 111"
    by (simp add: ascii_def lowerLatinCyrillic_def lowerLatinCyrillicUnit_def unitAt_def)
  have b: "unitAt (lowerLatinCyrillic (ascii ''Moscow''))
             (int (length (lowerLatinCyrillic (ascii ''Moscow''))) - 1) = Some 119"
    by (simp add: ascii_def lowerLatinCyrillic_def lowerLatinCyrillicUnit_def unitAt_def)
  have c: "ascii ''Moscow'' \<noteq> []" by (simp add: ascii_def)
  show ?thesis
    using a b c
      rejected_iff [where toLowerCase = lowerLatinCyrillic and w = "ascii ''Oslo''" and
        g = "\<lparr>players = [], usedWords = [ascii ''moscow''], currentCategory = [],
         lastWord = ascii ''Moscow'', isGameActive = True, currentUser = None\<rparr>"]
    by simp
qed

section \<open>The state in which a game starts\<close>

text \<open>
  \<open>#startNewGame\<close> hands to the loop a game with an empty used set, no last word, the
  active flag set, at least one player and all scores at zero; when there were no
  players it has two. In \<open>src/app.js\<close> the new computer player has a difficulty of
  \<open>DIFFICULTY_LEVELS\<close>.
\<close>

lemma startNewGame_fresh:
  assumes "startNewGame g cc dc n id1 id2 = Inr g'"
  shows "usedWords g' = [] \<and> isGameActive g' \<and> lastWord g' = [] \<and> players g' \<noteq> []
       \<and> (\<forall>p\<in>set (players g'). score p = 0)
       \<and> (players g = [] \<longrightarrow> length (players g') = 2)"
proof (cases "players g = []")
  case True
  with assms show ?thesis
    by (auto simp: startNewGame_def Let_def new_HumanPlayer_def new_ComputerPlayer_def
          split: option.splits)
next
  case False
  have r: "score (resetScore p) = 0" for p by (cases p) (simp_all add: resetScore_def)
  from False assms show ?thesis by (auto simp: startNewGame_def Let_def r)
qed

lemma startNewGame_part000_fresh:
  assumes "startNewGame_part000 g cc n id1 id2 = Inr g'"
  shows "usedWords g' = [] \<and> isGameActive g' \<and> lastWord g' = [] \<and> players g' \<noteq> []
       \<and> (\<forall>p\<in>set (players g'). score p = 0)
       \<and> (players g = [] \<longrightarrow> length (players g') = 2)"
proof (cases "players g = []")
  case True
  with assms show ?thesis
    by (auto simp: startNewGame_part000_def Let_def new_HumanPlayer_def
          new_ComputerPlayer_part000_def split: option.splits)
next
  case False
  have r: "score (resetScore p) = 0" for p by (cases p) (simp_all add: resetScore_def)
  from False assms show ?thesis by (auto simp: startNewGame_part000_def Let_def r)
qed

lemma startNewGame_difficulty:
  assumes "startNewGame g cc dc n id1 id2 = Inr g'" and "players g = []"
  shows "difficulty (players g' ! 1) \<in> set DIFFICULTY_LEVELS"
proof -
  have d: "(case itemAt [ascii ''easy'', ascii ''medium'', ascii ''hard''] dc of
              Some d \<Rightarrow> d | None \<Rightarrow> ascii ''medium'') \<in> set DIFFICULTY_LEVELS"
  proof (cases "0 \<le> dc \<and> dc < 3")
    case True
    then have "dc = 0 \<or> dc = 1 \<or> dc = 2" by arith
    then show ?thesis by (auto simp: itemAt_def DIFFICULTY_LEVELS_def)
  next
    case False
    then show ?thesis by (auto simp: itemAt_def DIFFICULTY_LEVELS_def)
  qed
  from assms d show ?thesis
    by (auto simp: startNewGame_def Let_def new_ComputerPlayer_def split: option.splits)
qed

text \<open>The example game of Ann and Bob is what a new game over their players looks like.\<close>

lemma twoHumans_started:
  "startNewGame twoHumans 0 1 [] [] [] = Inr twoHumans
   \<and> startNewGame_part000 twoHumans 0 [] [] [] = Inr twoHumans"
  by (simp add: startNewGame_def startNewGame_part000_def twoHumans_def itemAt_def
        CATEGORIES_def resetScore_def Let_def)

section \<open>One turn of the game\<close>

lemma showWinner_ok: "ps \<noteq> [] \<Longrightarrow> \<exists>w. showWinner ps = Inr w"
  by (cases ps) (simp_all add: showWinner_def)

lemma finish_ok:
  assumes "players (state l) \<noteq> []"
  shows "\<exists>w. showWinner (players (state l)) = Inr w \<and>
             finish l = Inr (l\<lparr>winner := Some w, returned := True\<rparr>)"
  using showWinner_ok [OF assms] by (auto simp: finish_def)

lemma turn_rejected:
  assumes "playerIdx l < length (players (state l))" and "\<not> accepts toLowerCase l inp"
  shows "turn toLowerCase l inp = rejectWord l"
  using assms by (auto simp: turn_def accepts_def submission_def Let_def split: option.splits)

lemma turn_accepted:
  assumes "playerIdx l < length (players (state l))" and "accepts toLowerCase l inp"
  shows "\<exists>w. submission toLowerCase l inp = Some w \<and> w \<noteq> [] \<and> validateWord toLowerCase (state l) w
             \<and> turn toLowerCase l inp = acceptWord toLowerCase l w"
  using assms by (auto simp: turn_def accepts_def submission_def Let_def split: option.splits)

lemma rejectWord_frame:
  assumes "players (state l) \<noteq> []"
  shows "\<exists>l'. rejectWord l = Inr l' \<and> skipped l' = skipped l + 1 \<and> state l' = state l"
proof (cases "skipped l + 1 \<ge> MAX_SKIPPED_TURNS")
  case True
  from finish_ok [of "l\<lparr>skipped := skipped l + 1\<rparr>"] assms
  obtain w where "finish (l\<lparr>skipped := skipped l + 1\<rparr>) =
      Inr (l\<lparr>skipped := skipped l + 1, winner := Some w, returned := True\<rparr>)"
    by auto
  with True show ?thesis by (simp add: rejectWord_def Let_def)
next
  case False
  then show ?thesis by (simp add: rejectWord_def Let_def nextPlayer_def)
qed

lemma turn_part000_rejected:
  assumes "playerIdx l < length (players (state l))" and "\<not> accepts_part000 toLowerCase l inp"
    and "set_size (usedWords (state l)) < 5"
  shows "turn_part000 toLowerCase l inp = Inr (nextPlayer (l\<lparr>skipped := skipped l + 1\<rparr>))"
  using assms
  by (auto simp: turn_part000_def wordCountCheck_part000_def accepts_part000_def
      submission_part000_def Let_def
        nextPlayer_def split: option.splits)

lemma wordCountCheck_part000_frame:
  assumes "wordCountCheck_part000 l = Inr l'"
  shows "skipped l' = skipped l" and "usedWords (state l') = usedWords (state l)"
    and "lastWord (state l') = lastWord (state l)"
    and "players (state l') = players (state l)"
    and "playerIdx l' = playerIdx l"
proof -
  from assms have "l' = l \<or>
      (\<exists>w. l' = l\<lparr>state := (state l)\<lparr>isGameActive := False\<rparr>, winner := Some w\<rparr>)"
    by (auto simp: wordCountCheck_part000_def split: if_splits sum.splits)
  then show "skipped l' = skipped l" and "usedWords (state l') = usedWords (state l)"
    and "lastWord (state l') = lastWord (state l)"
    and "players (state l') = players (state l)"
    and "playerIdx l' = playerIdx l"
    by auto
qed

lemma turn_part000_rejected_check:
  assumes "playerIdx l < length (players (state l))" and "\<not> accepts_part000 toLowerCase l inp"
  shows "turn_part000 toLowerCase l inp =
           wordCountCheck_part000 (nextPlayer (l\<lparr>skipped := skipped l + 1\<rparr>))"
  using assms
  by (auto simp: turn_part000_def accepts_part000_def submission_part000_def Let_def
        split: option.splits)

lemma turn_part000_rejected_frame:
  assumes "playerIdx l < length (players (state l))" and "\<not> accepts_part000 toLowerCase l inp"
    and "turn_part000 toLowerCase l inp = Inr l'"
  shows "skipped l' = skipped l + 1"
    and "usedWords (state l') = usedWords (state l)"
    and "lastWord (state l') = lastWord (state l)"
    and "players (state l') = players (state l)"
proof -
  from assms(3) have c:
    "wordCountCheck_part000 (nextPlayer (l\<lparr>skipped := skipped l + 1\<rparr>)) = Inr l'"
    unfolding turn_part000_rejected_check [OF assms(1,2)] .
  note f = wordCountCheck_part000_frame [OF c]
  show "skipped l' = skipped l + 1" using f(1) by (simp add: nextPlayer_def)
  show "usedWords (state l') = usedWords (state l)" using f(2) by (simp add: nextPlayer_def)
  show "lastWord (state l') = lastWord (state l)" using f(3) by (simp add: nextPlayer_def)
  show "players (state l') = players (state l)" using f(4) by (simp add: nextPlayer_def)
qed

text \<open>
  C5. A rejected submission increments the skip counter by exactly one and leaves the
  used set, the last word and every player's score as they were, in both copies. (In
  \<open>src/unnamed/part_000\<close> the word count is checked after every turn and the
  statistics may throw when it has reached five; the turn returns whenever fewer than
  five words are used, as in every running game.)
\<close>

theorem rejected_turn_frame:
  assumes "playerIdx l < length (players (state l))"
  shows "(\<not> accepts toLowerCase l inp \<longrightarrow>
           (\<exists>l'. turn toLowerCase l inp = Inr l' \<and> skipped l' = skipped l + 1
              \<and> usedWords (state l') = usedWords (state l)
              \<and> lastWord (state l') = lastWord (state l)
              \<and> map score (players (state l')) = map score (players (state l))))
       \<and> (\<not> accepts_part000 toLowerCase l inp \<longrightarrow>
           (\<forall>l'. turn_part000 toLowerCase l inp = Inr l' \<longrightarrow>
              skipped l' = skipped l + 1
              \<and> usedWords (state l') = usedWords (state l)
              \<and> lastWord (state l') = lastWord (state l)
              \<and> map score (players (state l')) = map score (players (state l))))
       \<and> (\<not> accepts_part000 toLowerCase l inp \<and> set_size (usedWords (state l)) < 5 \<longrightarrow>
           (\<exists>l'. turn_part000 toLowerCase l inp = Inr l'))"
proof (intro conjI impI allI)
  assume r: "\<not> accepts toLowerCase l inp"
  from assms have ne: "players (state l) \<noteq> []" by auto
  from rejectWord_frame [OF ne] obtain l' where
    "rejectWord l = Inr l'" "skipped l' = skipped l + 1" "state l' = state l" by blast
  then show "\<exists>l'. turn toLowerCase l inp = Inr l' \<and> skipped l' = skipped l + 1
              \<and> usedWords (state l') = usedWords (state l)
              \<and> lastWord (state l') = lastWord (state l)
              \<and> map score (players (state l')) = map score (players (state l))"
    using turn_rejected [OF assms r] by simp
next
  fix l'
  assume r: "\<not> accepts_part000 toLowerCase l inp" and t: "turn_part000 toLowerCase l inp = Inr l'"
  note f = turn_part000_rejected_frame [OF assms r t]
  show "skipped l' = skipped l + 1" by (rule f(1))
  show "usedWords (state l') = usedWords (state l)" by (rule f(2))
  show "lastWord (state l') = lastWord (state l)" by (rule f(3))
  show "map score (players (state l')) = map score (players (state l))"
    by (simp add: f(4))
next
  assume "\<not> accepts_part000 toLowerCase l inp \<and> set_size (usedWords (state l)) < 5"
  then have "turn_part000 toLowerCase l inp = Inr (nextPlayer (l\<lparr>skipped := skipped l + 1\<rparr>))"
    using turn_part000_rejected [OF assms] by blast
  then show "\<exists>l'. turn_part000 toLowerCase l inp = Inr l'" by blast
qed

lemma ascii_Nil_iff: "ascii s = [] \<longleftrightarrow> s = []"
  by (simp add: ascii_def)

lemma twoHumans_empty_rejected: "\<not> accepts lowerLatinCyrillic (enter twoHumans) (types [])"
  by (simp add: accepts_def submission_def enter_def twoHumans_def types_def trim_def ascii_def)

lemma twoHumans_empty_rejected_part000:
  "\<not> accepts_part000 lowerLatinCyrillic (enter twoHumans) (types [])"
  by (simp add: accepts_part000_def submission_part000_def enter_def twoHumans_def types_def
        trim_def ascii_def)

theorem rejected_turn_frame_witness:
  "playerIdx (enter twoHumans) < length (players (state (enter twoHumans)))
   \<and> \<not> accepts lowerLatinCyrillic (enter twoHumans) (types [])
   \<and> (\<exists>l'. turn lowerLatinCyrillic (enter twoHumans) (types []) = Inr l' \<and> skipped l' = 1
         \<and> usedWords (state l') = [] \<and> lastWord (state l') = []
         \<and> map score (players (state l')) = [0, 0])
   \<and> \<not> accepts_part000 lowerLatinCyrillic (enter twoHumans) (types [])
   \<and> (\<exists>l'. turn_part000 lowerLatinCyrillic (enter twoHumans) (types []) = Inr l' \<and> skipped l' = 1
         \<and> usedWords (state l') = [] \<and> lastWord (state l') = []
         \<and> map score (players (state l')) = [0, 0])"
proof -
  have i: "playerIdx (enter twoHumans) < length (players (state (enter twoHumans)))"
    by (simp add: enter_def twoHumans_def)
  have s: "skipped (enter twoHumans) + 1 = 1" "usedWords (state (enter twoHumans)) = []"
    "lastWord (state (enter twoHumans)) = []"
    "map score (players (state (enter twoHumans))) = [0, 0]"
    by (simp_all add: enter_def twoHumans_def)
  have z: "set_size (usedWords (state (enter twoHumans))) < 5"
    by (simp add: s set_size_def)
  note t = rejected_turn_frame [OF i, of lowerLatinCyrillic "types []"]
  note a = t [THEN conjunct1, rule_format, OF twoHumans_empty_rejected, unfolded s]
  note e = t [THEN conjunct2, THEN conjunct2, rule_format,
      OF conjI [OF twoHumans_empty_rejected_part000 z]]
  from e obtain l0 where l0: "turn_part000 lowerLatinCyrillic (enter twoHumans) (types []) = Inr
      l0" ..
  note f = t [THEN conjunct2, THEN conjunct1, rule_format,
      OF twoHumans_empty_rejected_part000 l0, unfolded s]
  have b: "\<exists>l'. turn_part000 lowerLatinCyrillic (enter twoHumans) (types []) = Inr l' \<and> skipped l'
      = 1
         \<and> usedWords (state l') = [] \<and> lastWord (state l') = []
         \<and> map score (players (state l')) = [0, 0]"
    by (rule exI [of _ l0]) (intro conjI l0 f [THEN conjunct1]
          f [THEN conjunct2, THEN conjunct1] f [THEN conjunct2, THEN conjunct2, THEN conjunct1]
          f [THEN conjunct2, THEN conjunct2, THEN conjunct2])
  show ?thesis
    by (intro conjI i twoHumans_empty_rejected twoHumans_empty_rejected_part000 a b)
qed

lemma score_addPoint: "score (addPoint k p) = score p + k"
  by (cases p) (simp_all add: addPoint_def)

lemma finish_effect:
  assumes "players (state l) \<noteq> []"
  shows "\<exists>l' w. finish l = Inr l' \<and> state l' = state l \<and> skipped l' = skipped l
            \<and> playerIdx l' = playerIdx l \<and> returned l' \<and> winner l' = Some w
            \<and> showWinner (players (state l)) = Inr w"
  using finish_ok [OF assms] by auto

lemma acceptWord_effect:
  assumes "playerIdx l < length (players (state l))"
  shows "\<exists>l'. acceptWord toLowerCase l w = Inr l'
           \<and> players (state l') =
               (players (state l))
                 [playerIdx l :=
                    addPoint (min (int (length w) div 2) 3) (players (state l) ! playerIdx l)]
           \<and> usedWords (state l') = set_add (usedWords (state l)) (toLowerCase w)
           \<and> lastWord (state l') = w \<and> skipped l' = 0
           \<and> currentCategory (state l') = currentCategory (state l)"
proof (cases "set_size (set_add (usedWords (state l)) (toLowerCase w)) \<ge> MAX_WORDS_FOR_WIN")
  case True
  define g1 where "g1 =
    (state l)\<lparr>usedWords := set_add (usedWords (state l)) (toLowerCase w),
              lastWord := w,
              players := (players (state l))
                [playerIdx l := addPoint (min (int (length w) div 2) 3)
                   (players (state l) ! playerIdx l)]\<rparr>"
  define l1 where "l1 =
    (l\<lparr>state := g1, skipped := 0, round_no := round_no l + 1\<rparr>)
      \<lparr>state := g1\<lparr>isGameActive := False\<rparr>\<rparr>"
  have a: "acceptWord toLowerCase l w = finish l1"
    using True by (simp add: acceptWord_def Let_def l1_def g1_def)
  have "players (state l1) \<noteq> []" using assms by (auto simp: l1_def g1_def)
  from finish_effect [OF this] obtain l' where
    "finish l1 = Inr l'" "state l' = state l1" "skipped l' = skipped l1" by blast
  then show ?thesis unfolding a by (simp add: l1_def g1_def)
next
  case False
  then show ?thesis by (simp add: acceptWord_def Let_def nextPlayer_def)
qed

lemma isWin_part000_ok: "2 \<le> length ps \<Longrightarrow> \<exists>r. isWin_part000 ps = Inr r"
  by (simp add: isWin_part000_def split: option.splits)

lemma turn_part000_accepted:
  assumes "playerIdx l < length (players (state l))" and "accepts_part000 toLowerCase l inp"
    and "2 \<le> length (players (state l))"
  shows "\<exists>w l'. submission_part000 toLowerCase l inp = Some w \<and> turn_part000 toLowerCase l inp =
      Inr l'
           \<and> players (state l') =
               (players (state l))
                 [playerIdx l := addPoint 1 (players (state l) ! playerIdx l)]
           \<and> usedWords (state l') = set_add (usedWords (state l)) (toLowerCase w)
           \<and> lastWord (state l') = w \<and> skipped l' = 0"
proof -
  from assms(2) obtain w where w: "submission_part000 toLowerCase l inp = Some w" "w \<noteq> []"
    "validateWord_part000 toLowerCase w (lastWord (state l)) (usedWords (state l))"
    by (auto simp: accepts_part000_def split: option.splits)
  let ?ps = "(players (state l))[playerIdx l := addPoint 1 (players (state l) ! playerIdx l)]"
  have ne: "?ps \<noteq> []" using assms(1) by auto
  from showWinner_ok [OF ne] obtain x where x: "showWinner ?ps = Inr x" by blast
  have "2 \<le> length ?ps" using assms(3) by simp
  from isWin_part000_ok [OF this] obtain r where r: "isWin_part000 ?ps = Inr r" by blast
  show ?thesis
    using w x r assms(1)
    by (cases "5 \<le> set_size (set_add (usedWords (state l)) (toLowerCase w))")
       (simp_all add: turn_part000_def wordCountCheck_part000_def submission_part000_def Let_def
           nextPlayer_def)
qed

lemma turn_part000_accepted_check:
  assumes "playerIdx l < length (players (state l))"
    and "submission_part000 toLowerCase l inp = Some w" and "w \<noteq> []"
    and "validateWord_part000 toLowerCase w (lastWord (state l)) (usedWords (state l))"
  shows "turn_part000 toLowerCase l inp =
           wordCountCheck_part000
             (nextPlayer
               (l\<lparr>state := (state l)
                      \<lparr>usedWords := set_add (usedWords (state l)) (toLowerCase w),
                       lastWord := w,
                       players := (players (state l))
                         [playerIdx l := addPoint 1 (players (state l) ! playerIdx l)]\<rparr>,
                   skipped := 0\<rparr>))"
  using assms by (simp add: turn_part000_def submission_part000_def Let_def)

lemma turn_part000_accepted_players:
  assumes "playerIdx l < length (players (state l))" and "accepts_part000 toLowerCase l inp"
    and "turn_part000 toLowerCase l inp = Inr l'"
  shows "players (state l') =
           (players (state l))[playerIdx l := addPoint 1 (players (state l) ! playerIdx l)]"
proof -
  from assms(2) obtain w where w: "submission_part000 toLowerCase l inp = Some w" "w \<noteq> []"
    "validateWord_part000 toLowerCase w (lastWord (state l)) (usedWords (state l))"
    by (auto simp: accepts_part000_def split: option.splits)
  from assms(3) have c: "wordCountCheck_part000
             (nextPlayer
               (l\<lparr>state := (state l)
                      \<lparr>usedWords := set_add (usedWords (state l)) (toLowerCase w),
                       lastWord := w,
                       players := (players (state l))
                         [playerIdx l := addPoint 1 (players (state l) ! playerIdx l)]\<rparr>,
                   skipped := 0\<rparr>)) = Inr l'"
    unfolding turn_part000_accepted_check [OF assms(1) w] .
  from wordCountCheck_part000_frame(4) [OF c] show ?thesis by (simp add: nextPlayer_def)
qed

text \<open>
  C3, amended. In \<open>src/app.js\<close> an accepted word \<open>w\<close> adds exactly
  \<open>min(floor(length(w)/2), 3)\<close> to the score of the acting player; in
  \<open>src/unnamed/part_000\<close> every accepted word adds exactly one point. (There the
  statistics read \<open>this.#players[1]\<close> after the fifth word; the turn returns whenever
  the game has at least two players.)
\<close>

theorem accepted_word_points:
  assumes "playerIdx l < length (players (state l))"
  shows "(accepts toLowerCase l inp \<longrightarrow>
           (\<exists>w l'. submission toLowerCase l inp = Some w \<and> turn toLowerCase l inp = Inr l'
              \<and> score (players (state l') ! playerIdx l) =
                  score (players (state l) ! playerIdx l) + min (int (length w) div 2) 3))
       \<and> (accepts_part000 toLowerCase l inp \<longrightarrow>
           (\<forall>l'. turn_part000 toLowerCase l inp = Inr l' \<longrightarrow>
              score (players (state l') ! playerIdx l) =
                score (players (state l) ! playerIdx l) + 1))
       \<and> (accepts_part000 toLowerCase l inp \<and> 2 \<le> length (players (state l)) \<longrightarrow>
           (\<exists>l'. turn_part000 toLowerCase l inp = Inr l'))"
proof (intro conjI impI allI)
  assume "accepts toLowerCase l inp"
  from turn_accepted [OF assms this] obtain w where
    w: "submission toLowerCase l inp = Some w" "turn toLowerCase l inp = acceptWord toLowerCase l
        w" by blast
  from acceptWord_effect [OF assms, of toLowerCase w] obtain l' where
    l': "acceptWord toLowerCase l w = Inr l'"
    "players (state l') =
       (players (state l))
         [playerIdx l := addPoint (min (int (length w) div 2) 3) (players (state l) ! playerIdx l)]"
    by blast
  have "score (players (state l') ! playerIdx l) =
        score (players (state l) ! playerIdx l) + min (int (length w) div 2) 3"
    using assms by (simp add: l'(2) score_addPoint)
  with w l'(1) show "\<exists>w l'. submission toLowerCase l inp = Some w \<and> turn toLowerCase l inp = Inr l'
              \<and> score (players (state l') ! playerIdx l) =
                  score (players (state l) ! playerIdx l) + min (int (length w) div 2) 3"
    by auto
next
  fix l'
  assume a: "accepts_part000 toLowerCase l inp" and t: "turn_part000 toLowerCase l inp = Inr l'"
  show "score (players (state l') ! playerIdx l) = score (players (state l) ! playerIdx l) + 1"
    using assms by (simp add: turn_part000_accepted_players [OF assms a t] score_addPoint)
next
  assume a: "accepts_part000 toLowerCase l inp \<and> 2 \<le> length (players (state l))"
  from turn_part000_accepted [OF assms] a show "\<exists>l'. turn_part000 toLowerCase l inp = Inr l'"
    by blast
qed

lemma trim_Moscow: "trim (ascii ''Moscow'') = ascii ''Moscow''"
  by (simp add: trim_def ascii_def isWhitespace_def)

lemma lower_Moscow: "lowerLatinCyrillic (ascii ''Moscow'') = ascii ''moscow''"
  by (simp add: lowerLatinCyrillic_def ascii_def lowerLatinCyrillicUnit_def)

lemma length_Moscow: "length (ascii ''Moscow'') = 6"
  by (simp add: ascii_def)

lemma twoHumans_submission_Moscow:
  "submission lowerLatinCyrillic (enter twoHumans) (types ''Moscow'') = Some (ascii ''Moscow'')"
  by (simp add: submission_def enter_def twoHumans_def types_def trim_Moscow)

lemma twoHumans_submission_part000_Moscow:
  "submission_part000 lowerLatinCyrillic (enter twoHumans) (types ''Moscow'') = Some (ascii
      ''Moscow'')"
  by (simp add: submission_part000_def enter_def twoHumans_def types_def trim_Moscow)

lemma twoHumans_accepts_Moscow: "accepts lowerLatinCyrillic (enter twoHumans) (types ''Moscow'')"
  unfolding accepts_def twoHumans_submission_Moscow
  by (simp add: enter_def twoHumans_def validateWord_def Validator_validateWord_def
        MIN_WORD_LENGTH_def trim_Moscow length_Moscow ascii_Nil_iff set_has_def Let_def)

lemma twoHumans_accepts_part000_Moscow:
  "accepts_part000 lowerLatinCyrillic (enter twoHumans) (types ''Moscow'')"
  unfolding accepts_part000_def twoHumans_submission_part000_Moscow
  by (simp add: enter_def twoHumans_def validateWord_part000_def length_Moscow ascii_Nil_iff
        set_has_def Let_def)

lemma twoHumans_turn_part000_Moscow:
  "turn_part000 lowerLatinCyrillic (enter twoHumans) (types ''Moscow'') =
     Inr \<lparr>state =
            \<lparr>players = [HumanPlayer (ascii ''Ann'') 1 (ascii ''a1'') [] (ascii ''ann''),
                        HumanPlayer (ascii ''Bob'') 0 (ascii ''b1'') [] []],
             usedWords = [ascii ''moscow''],
             currentCategory = [1075, 1086, 1088, 1086, 1076, 1072],
             lastWord = ascii ''Moscow'', isGameActive = True, currentUser = None\<rparr>,
          playerIdx = 1, skipped = 0, round_no = 1, winner = None, returned = False\<rparr>"
proof -
  have v: "validateWord_part000 lowerLatinCyrillic (ascii ''Moscow'') [] []"
    by (simp add: validateWord_part000_def length_Moscow ascii_Nil_iff set_has_def Let_def)
  show ?thesis
    unfolding turn_part000_def wordCountCheck_part000_def enter_def twoHumans_def
    by (simp add: Let_def types_def trim_Moscow v ascii_Nil_iff lower_Moscow set_add_def
          set_has_def set_size_def addPoint_def nextPlayer_def)
qed

text \<open>
  C3, as stated, fails on \<open>src/unnamed/part_000\<close>: Moscow as the first word of a game
  is accepted and brings Ann one point, not three.
\<close>

theorem accepted_word_points_counterexample:
  "accepts_part000 lowerLatinCyrillic (enter twoHumans) (types ''Moscow'')
   \<and> submission_part000 lowerLatinCyrillic (enter twoHumans) (types ''Moscow'') = Some (ascii
       ''Moscow'')
   \<and> min (int (length (ascii ''Moscow'')) div 2) 3 = 3
   \<and> score (players twoHumans ! 0) = 0
   \<and> turn_part000 lowerLatinCyrillic (enter twoHumans) (types ''Moscow'') =
     Inr \<lparr>state =
            \<lparr>players = [HumanPlayer (ascii ''Ann'') 1 (ascii ''a1'') [] (ascii ''ann''),
                        HumanPlayer (ascii ''Bob'') 0 (ascii ''b1'') [] []],
             usedWords = [ascii ''moscow''],
             currentCategory = [1075, 1086, 1088, 1086, 1076, 1072],
             lastWord = ascii ''Moscow'', isGameActive = True, currentUser = None\<rparr>,
          playerIdx = 1, skipped = 0, round_no = 1, winner = None, returned = False\<rparr>"
  using twoHumans_accepts_part000_Moscow twoHumans_submission_part000_Moscow
    twoHumans_turn_part000_Moscow
  by (simp add: length_Moscow twoHumans_def)

theorem accepted_word_points_witness:
  "playerIdx (enter twoHumans) < length (players (state (enter twoHumans)))
   \<and> accepts lowerLatinCyrillic (enter twoHumans) (types ''Moscow'')
   \<and> (\<exists>l'. turn lowerLatinCyrillic (enter twoHumans) (types ''Moscow'') = Inr l'
         \<and> score (players (state l') ! 0) = 3)
   \<and> accepts_part000 lowerLatinCyrillic (enter twoHumans) (types ''Moscow'')
   \<and> (\<exists>l'. turn_part000 lowerLatinCyrillic (enter twoHumans) (types ''Moscow'') = Inr l'
         \<and> score (players (state l') ! 0) = 1)"
proof -
  have i: "playerIdx (enter twoHumans) < length (players (state (enter twoHumans)))"
    by (simp add: enter_def twoHumans_def)
  have s: "playerIdx (enter twoHumans) = 0" "score (players (state (enter twoHumans)) ! 0) = 0"
    by (simp_all add: enter_def twoHumans_def)
  have two: "2 \<le> length (players (state (enter twoHumans)))"
    by (simp add: enter_def twoHumans_def)
  note t = accepted_word_points [OF i, of lowerLatinCyrillic "types ''Moscow''"]
  from t [THEN conjunct1, rule_format, OF twoHumans_accepts_Moscow]
  obtain w l' where
    l': "submission lowerLatinCyrillic (enter twoHumans) (types ''Moscow'') = Some w"
      "turn lowerLatinCyrillic (enter twoHumans) (types ''Moscow'') = Inr l'"
      "score (players (state l') ! playerIdx (enter twoHumans)) =
         score (players (state (enter twoHumans)) ! playerIdx (enter twoHumans))
         + min (int (length w) div 2) 3"
    by (elim exE conjE)
  from l'(1) have w: "w = ascii ''Moscow''" unfolding twoHumans_submission_Moscow by simp
  have "score (players (state l') ! 0) = 3"
    using l'(3) unfolding w s by (simp add: length_Moscow)
  with l'(2) have a: "\<exists>l'. turn lowerLatinCyrillic (enter twoHumans) (types ''Moscow'') = Inr l'
         \<and> score (players (state l') ! 0) = 3"
    by (intro exI [of _ l'] conjI)
  note e = t [THEN conjunct2, THEN conjunct2, rule_format,
      OF conjI [OF twoHumans_accepts_part000_Moscow two]]
  from e obtain l0 where l0: "turn_part000 lowerLatinCyrillic (enter twoHumans) (types ''Moscow'')
      = Inr l0" ..
  note f = t [THEN conjunct2, THEN conjunct1, rule_format,
      OF twoHumans_accepts_part000_Moscow l0, unfolded s]
  have "score (players (state l0) ! 0) = 1" using f by simp
  with l0 have b: "\<exists>l'. turn_part000 lowerLatinCyrillic (enter twoHumans) (types ''Moscow'') = Inr
      l'
         \<and> score (players (state l') ! 0) = 1"
    by (intro exI [of _ l0] conjI)
  show ?thesis
    by (intro conjI i twoHumans_accepts_Moscow twoHumans_accepts_part000_Moscow a b)
qed

section \<open>Saving and loading\<close>

lemma foldl_set_add_set: "set (foldl set_add acc xs) = set acc \<union> set xs"
  by (induction xs arbitrary: acc) (auto simp: set_add_def set_has_def)

lemma set_new_Set: "set (new_Set xs) = set xs"
  by (simp add: new_Set_def foldl_set_add_set)

lemma foldl_set_add_distinct: "distinct (acc @ xs) \<Longrightarrow> foldl set_add acc xs = acc @ xs"
  by (induction xs arbitrary: acc) (auto simp: set_add_def set_has_def)

lemma new_Set_distinct: "distinct xs \<Longrightarrow> new_Set xs = xs"
  using foldl_set_add_distinct [of "[]" xs] by (simp add: new_Set_def)

lemma ComputerPlayer_tag_neq: "ascii ''HumanPlayer'' \<noteq> ascii ''ComputerPlayer''"
  by (simp add: ascii_def)

lemma restorePlayer_serialize_human:
  "restorePlayer (serialize_player (HumanPlayer n s i e u)) = HumanPlayer n s i e u"
  by (simp add: restorePlayer_def serialize_player_def deserialize_player_def
        new_HumanPlayer_def orString_def ComputerPlayer_tag_neq)

lemma restorePlayer_serialize_computer:
  "d \<noteq> [] \<Longrightarrow>
   restorePlayer (serialize_player (ComputerPlayer n s i d db)) =
     ComputerPlayer n s i d initializeWordDatabase"
  by (simp add: restorePlayer_def serialize_player_def deserialize_player_def
        new_ComputerPlayer_def orString_def)

lemma restorePlayer_roundtrip:
  assumes "is_ComputerPlayer p \<longrightarrow> difficulty p \<noteq> []"
  shows "name (restorePlayer (serialize_player p)) = name p
       \<and> score (restorePlayer (serialize_player p)) = score p
       \<and> player_id (restorePlayer (serialize_player p)) = player_id p
       \<and> (is_HumanPlayer p \<longrightarrow>
            is_HumanPlayer (restorePlayer (serialize_player p))
            \<and> email (restorePlayer (serialize_player p)) = email p
            \<and> username (restorePlayer (serialize_player p)) = username p)
       \<and> (is_ComputerPlayer p \<longrightarrow>
            is_ComputerPlayer (restorePlayer (serialize_player p))
            \<and> difficulty (restorePlayer (serialize_player p)) = difficulty p)"
proof (cases p)
  case (HumanPlayer n s i e u)
  then show ?thesis by (simp add: restorePlayer_serialize_human)
next
  case (ComputerPlayer n s i d db)
  with assms have "d \<noteq> []" by simp
  from restorePlayer_serialize_computer [OF this] ComputerPlayer show ?thesis by simp
qed

text \<open>A restored computer player never has an empty difficulty.\<close>

lemma restorePlayer_difficulty:
  "is_ComputerPlayer (restorePlayer d) \<Longrightarrow> difficulty (restorePlayer d) \<noteq> []"
  by (cases "data_type d = Some (ascii ''ComputerPlayer'')")
     (auto simp: restorePlayer_def deserialize_player_def new_ComputerPlayer_def
        new_HumanPlayer_def orString_def ascii_def split: option.splits)

text \<open>
  C6. Deserializing the serialized game gives a game with the same category, active
  flag, last word and used set, and players with the same name, score, identifier and,
  by class, the same e-mail address and user name or the same difficulty. The
  difficulty of a computer player is a non-empty string: the constructor is called with
  a level of \<open>DIFFICULTY_LEVELS\<close> or with its default, and \<open>deserialize\<close> stores
  \<open>d.difficulty || 'medium'\<close>.
\<close>

theorem snapshot_round_trip:
  assumes "\<forall>p\<in>set (players g). is_ComputerPlayer p \<longrightarrow> difficulty p \<noteq> []"
  shows "\<exists>g'. deserialize g0 (serialize g) = Inr g'
           \<and> currentCategory g' = currentCategory g
           \<and> isGameActive g' = isGameActive g
           \<and> lastWord g' = lastWord g
           \<and> set (usedWords g') = set (usedWords g)
           \<and> (distinct (usedWords g) \<longrightarrow> usedWords g' = usedWords g)
           \<and> length (players g') = length (players g)
           \<and> (\<forall>i<length (players g).
                 name (players g' ! i) = name (players g ! i)
               \<and> score (players g' ! i) = score (players g ! i)
               \<and> player_id (players g' ! i) = player_id (players g ! i)
               \<and> (is_HumanPlayer (players g ! i) \<longrightarrow>
                    is_HumanPlayer (players g' ! i)
                    \<and> email (players g' ! i) = email (players g ! i)
                    \<and> username (players g' ! i) = username (players g ! i))
               \<and> (is_ComputerPlayer (players g ! i) \<longrightarrow>
                    is_ComputerPlayer (players g' ! i)
                    \<and> difficulty (players g' ! i) = difficulty (players g ! i)))"
proof -
  let ?g' = "g0\<lparr>players := map restorePlayer (map serialize_player (players g)),
                 usedWords := new_Set (usedWords g),
                 currentCategory := currentCategory g,
                 lastWord := lastWord g,
                 isGameActive := isGameActive g,
                 currentUser := currentUser g\<rparr>"
  have d: "deserialize g0 (serialize g) = Inr ?g'"
    by (simp add: deserialize_def serialize_def orString_def orFalse_def orEmpty_def
          Array_from_def)
  have p: "\<forall>i<length (players g).
                 name (players ?g' ! i) = name (players g ! i)
               \<and> score (players ?g' ! i) = score (players g ! i)
               \<and> player_id (players ?g' ! i) = player_id (players g ! i)
               \<and> (is_HumanPlayer (players g ! i) \<longrightarrow>
                    is_HumanPlayer (players ?g' ! i)
                    \<and> email (players ?g' ! i) = email (players g ! i)
                    \<and> username (players ?g' ! i) = username (players g ! i))
               \<and> (is_ComputerPlayer (players g ! i) \<longrightarrow>
                    is_ComputerPlayer (players ?g' ! i)
                    \<and> difficulty (players ?g' ! i) = difficulty (players g ! i))"
  proof (intro allI impI)
    fix i assume i: "i < length (players g)"
    then have "is_ComputerPlayer (players g ! i) \<longrightarrow> difficulty (players g ! i) \<noteq> []"
      using assms by simp
    from restorePlayer_roundtrip [OF this] i
    show "name (players ?g' ! i) = name (players g ! i)
               \<and> score (players ?g' ! i) = score (players g ! i)
               \<and> player_id (players ?g' ! i) = player_id (players g ! i)
               \<and> (is_HumanPlayer (players g ! i) \<longrightarrow>
                    is_HumanPlayer (players ?g' ! i)
                    \<and> email (players ?g' ! i) = email (players g ! i)
                    \<and> username (players ?g' ! i) = username (players g ! i))
               \<and> (is_ComputerPlayer (players g ! i) \<longrightarrow>
                    is_ComputerPlayer (players ?g' ! i)
                    \<and> difficulty (players ?g' ! i) = difficulty (players g ! i))"
      by simp
  qed
  have u: "set (usedWords ?g') = set (usedWords g)"
    "distinct (usedWords g) \<longrightarrow> usedWords ?g' = usedWords g"
    by (simp_all add: set_new_Set new_Set_distinct)
  have r: "currentCategory ?g' = currentCategory g" "isGameActive ?g' = isGameActive g"
    "lastWord ?g' = lastWord g" "length (players ?g') = length (players g)"
    by simp_all
  show ?thesis
    by (rule exI [of _ ?g']) (intro conjI d p u r)
qed

theorem snapshot_round_trip_witness:
  "difficulty (players savedGame ! 1) = ascii ''hard''
   \<and> (\<exists>g'. deserialize twoHumans (serialize savedGame) = Inr g'
         \<and> currentCategory g' = [1075, 1086, 1088, 1086, 1076, 1072]
         \<and> isGameActive g'
         \<and> lastWord g' = ascii ''Moscow''
         \<and> usedWords g' = [ascii ''moscow'']
         \<and> length (players g') = 2
         \<and> name (players g' ! 0) = ascii ''Ann'' \<and> score (players g' ! 0) = 3
         \<and> player_id (players g' ! 0) = ascii ''a1''
         \<and> email (players g' ! 0) = [] \<and> username (players g' ! 0) = ascii ''ann''
         \<and> score (players g' ! 1) = 0 \<and> player_id (players g' ! 1) = ascii ''c1''
         \<and> difficulty (players g' ! 1) = ascii ''hard'')"
proof -
  have h: "\<forall>p\<in>set (players savedGame). is_ComputerPlayer p \<longrightarrow> difficulty p \<noteq> []"
    by (simp add: savedGame_def ascii_def)
  from snapshot_round_trip [OF h, of twoHumans] obtain g' where
    g': "deserialize twoHumans (serialize savedGame) = Inr g'"
      "currentCategory g' = currentCategory savedGame"
      "isGameActive g' = isGameActive savedGame"
      "lastWord g' = lastWord savedGame"
      "distinct (usedWords savedGame) \<longrightarrow> usedWords g' = usedWords savedGame"
      "length (players g') = length (players savedGame)"
    and each: "\<forall>i<length (players savedGame).
                 name (players g' ! i) = name (players savedGame ! i)
               \<and> score (players g' ! i) = score (players savedGame ! i)
               \<and> player_id (players g' ! i) = player_id (players savedGame ! i)
               \<and> (is_HumanPlayer (players savedGame ! i) \<longrightarrow>
                    is_HumanPlayer (players g' ! i)
                    \<and> email (players g' ! i) = email (players savedGame ! i)
                    \<and> username (players g' ! i) = username (players savedGame ! i))
               \<and> (is_ComputerPlayer (players savedGame ! i) \<longrightarrow>
                    is_ComputerPlayer (players g' ! i)
                    \<and> difficulty (players g' ! i) = difficulty (players savedGame ! i))"
    by blast
  have two: "length (players savedGame) = 2" by (simp add: savedGame_def)
  from each two have e0:
    "name (players g' ! 0) = name (players savedGame ! 0)"
    "score (players g' ! 0) = score (players savedGame ! 0)"
    "player_id (players g' ! 0) = player_id (players savedGame ! 0)"
    "is_HumanPlayer (players savedGame ! 0) \<longrightarrow>
       email (players g' ! 0) = email (players savedGame ! 0)
       \<and> username (players g' ! 0) = username (players savedGame ! 0)"
    by simp_all
  from each two have e1:
    "score (players g' ! 1) = score (players savedGame ! 1)"
    "player_id (players g' ! 1) = player_id (players savedGame ! 1)"
    "is_ComputerPlayer (players savedGame ! 1) \<longrightarrow>
       difficulty (players g' ! 1) = difficulty (players savedGame ! 1)"
    by simp_all
  have "difficulty (players savedGame ! 1) = ascii ''hard''" by (simp add: savedGame_def)
  moreover have "currentCategory g' = [1075, 1086, 1088, 1086, 1076, 1072]"
    "isGameActive g'" "lastWord g' = ascii ''Moscow''" "usedWords g' = [ascii ''moscow'']"
    "length (players g') = 2"
    using g'(2-6) by (simp_all add: savedGame_def)
  moreover have "name (players g' ! 0) = ascii ''Ann''" "score (players g' ! 0) = 3"
    "player_id (players g' ! 0) = ascii ''a1''"
    "email (players g' ! 0) = []" "username (players g' ! 0) = ascii ''ann''"
    using e0 by (simp_all add: savedGame_def)
  moreover have "score (players g' ! 1) = 0" "player_id (players g' ! 1) = ascii ''c1''"
    "difficulty (players g' ! 1) = ascii ''hard''"
    using e1 by (simp_all add: savedGame_def)
  ultimately show ?thesis using g'(1) by blast
qed

lemma restorePlayer_kind:
  "(data_type d = Some (ascii ''ComputerPlayer'') \<longrightarrow>
      restorePlayer d =
        ComputerPlayer (data_name d) (data_score d) (data_id d)
          (orString (data_difficulty d) (ascii ''medium'')) initializeWordDatabase)
   \<and> (data_type d \<noteq> Some (ascii ''ComputerPlayer'') \<longrightarrow>
      restorePlayer d =
        HumanPlayer (data_name d) (data_score d) (data_id d)
          (orString (data_email d) []) (orString (data_username d) []))"
  by (simp add: restorePlayer_def deserialize_player_def new_ComputerPlayer_def
        new_HumanPlayer_def)

text \<open>
  C9. For a snapshot with a \<open>players\<close> array, \<open>deserialize\<close> returns without an
  exception and puts defaults in the place of absent properties: the difficulty becomes
  \<open>medium\<close>, the e-mail address and the user name become empty strings, the active
  flag becomes false and the used set becomes empty. An entry whose tag is absent or is
  not \<open>ComputerPlayer\<close> is restored as a human player.
\<close>

theorem deserialize_defaults:
  assumes "data_players data = Some pds"
  shows "\<exists>g'. deserialize g data = Inr g'
           \<and> length (players g') = length pds
           \<and> (data_isGameActive data = None \<longrightarrow> \<not> isGameActive g')
           \<and> (data_usedWords data = None \<longrightarrow> usedWords g' = [])
           \<and> (\<forall>i<length pds.
                 name (players g' ! i) = data_name (pds ! i)
               \<and> score (players g' ! i) = data_score (pds ! i)
               \<and> player_id (players g' ! i) = data_id (pds ! i)
               \<and> (data_type (pds ! i) = Some (ascii ''ComputerPlayer'') \<longrightarrow>
                    is_ComputerPlayer (players g' ! i)
                    \<and> (data_difficulty (pds ! i) = None \<longrightarrow>
                         difficulty (players g' ! i) = ascii ''medium''))
               \<and> (data_type (pds ! i) \<noteq> Some (ascii ''ComputerPlayer'') \<longrightarrow>
                    is_HumanPlayer (players g' ! i)
                    \<and> (data_email (pds ! i) = None \<longrightarrow> email (players g' ! i) = [])
                    \<and> (data_username (pds ! i) = None \<longrightarrow> username (players g' ! i) = [])))"
proof -
  let ?g' = "g\<lparr>players := map restorePlayer pds,
                usedWords := new_Set (orEmpty (data_usedWords data)),
                currentCategory := orString (data_currentCategory data) [],
                lastWord := orString (data_lastWord data) [],
                isGameActive := orFalse (data_isGameActive data),
                currentUser := data_currentUser data\<rparr>"
  have d: "deserialize g data = Inr ?g'" using assms by (simp add: deserialize_def)
  have a: "length (players ?g') = length pds" by simp
  have b: "data_isGameActive data = None \<longrightarrow> \<not> isGameActive ?g'"
    by (simp add: orFalse_def)
  have c: "data_usedWords data = None \<longrightarrow> usedWords ?g' = []"
    by (simp add: orEmpty_def new_Set_def)
  have e: "\<forall>i<length pds.
                 name (players ?g' ! i) = data_name (pds ! i)
               \<and> score (players ?g' ! i) = data_score (pds ! i)
               \<and> player_id (players ?g' ! i) = data_id (pds ! i)
               \<and> (data_type (pds ! i) = Some (ascii ''ComputerPlayer'') \<longrightarrow>
                    is_ComputerPlayer (players ?g' ! i)
                    \<and> (data_difficulty (pds ! i) = None \<longrightarrow>
                         difficulty (players ?g' ! i) = ascii ''medium''))
               \<and> (data_type (pds ! i) \<noteq> Some (ascii ''ComputerPlayer'') \<longrightarrow>
                    is_HumanPlayer (players ?g' ! i)
                    \<and> (data_email (pds ! i) = None \<longrightarrow> email (players ?g' ! i) = [])
                    \<and> (data_username (pds ! i) = None \<longrightarrow> username (players ?g' ! i) = []))"
  proof (intro allI impI)
    fix i assume "i < length pds"
    then have n: "players ?g' ! i = restorePlayer (pds ! i)" by simp
    show "name (players ?g' ! i) = data_name (pds ! i)
               \<and> score (players ?g' ! i) = data_score (pds ! i)
               \<and> player_id (players ?g' ! i) = data_id (pds ! i)
               \<and> (data_type (pds ! i) = Some (ascii ''ComputerPlayer'') \<longrightarrow>
                    is_ComputerPlayer (players ?g' ! i)
                    \<and> (data_difficulty (pds ! i) = None \<longrightarrow>
                         difficulty (players ?g' ! i) = ascii ''medium''))
               \<and> (data_type (pds ! i) \<noteq> Some (ascii ''ComputerPlayer'') \<longrightarrow>
                    is_HumanPlayer (players ?g' ! i)
                    \<and> (data_email (pds ! i) = None \<longrightarrow> email (players ?g' ! i) = [])
                    \<and> (data_username (pds ! i) = None \<longrightarrow> username (players ?g' ! i) = []))"
      unfolding n using restorePlayer_kind [of "pds ! i"]
      by (cases "data_type (pds ! i) = Some (ascii ''ComputerPlayer'')")
         (simp_all add: orString_def)
  qed
  show ?thesis by (rule exI [of _ ?g']) (intro conjI d a b c e)
qed

theorem deserialize_defaults_witness:
  "data_players bareSnapshot \<noteq> None
   \<and> (\<exists>g'. deserialize twoHumans bareSnapshot = Inr g'
         \<and> length (players g') = 2
         \<and> \<not> isGameActive g' \<and> usedWords g' = []
         \<and> is_ComputerPlayer (players g' ! 0)
         \<and> difficulty (players g' ! 0) = ascii ''medium''
         \<and> is_HumanPlayer (players g' ! 1)
         \<and> name (players g' ! 1) = ascii ''Ann'' \<and> score (players g' ! 1) = 3
         \<and> email (players g' ! 1) = [] \<and> username (players g' ! 1) = [])"
proof -
  define pds where "pds = the (data_players bareSnapshot)"
  have h: "data_players bareSnapshot = Some pds" by (simp add: pds_def bareSnapshot_def)
  have two: "length pds = 2" by (simp add: pds_def bareSnapshot_def)
  have t: "data_type (pds ! 0) = Some (ascii ''ComputerPlayer'')"
    "data_difficulty (pds ! 0) = None"
    "data_type (pds ! 1) \<noteq> Some (ascii ''ComputerPlayer'')"
    "data_email (pds ! 1) = None" "data_username (pds ! 1) = None"
    "data_name (pds ! 1) = ascii ''Ann''" "data_score (pds ! 1) = 3"
    by (simp_all add: pds_def bareSnapshot_def)
  have m: "data_isGameActive bareSnapshot = None" "data_usedWords bareSnapshot = None"
    by (simp_all add: bareSnapshot_def)
  from deserialize_defaults [OF h, of twoHumans] obtain g' where
    all: "deserialize twoHumans bareSnapshot = Inr g'
           \<and> length (players g') = length pds
           \<and> (data_isGameActive bareSnapshot = None \<longrightarrow> \<not> isGameActive g')
           \<and> (data_usedWords bareSnapshot = None \<longrightarrow> usedWords g' = [])
           \<and> (\<forall>i<length pds.
                 name (players g' ! i) = data_name (pds ! i)
               \<and> score (players g' ! i) = data_score (pds ! i)
               \<and> player_id (players g' ! i) = data_id (pds ! i)
               \<and> (data_type (pds ! i) = Some (ascii ''ComputerPlayer'') \<longrightarrow>
                    is_ComputerPlayer (players g' ! i)
                    \<and> (data_difficulty (pds ! i) = None \<longrightarrow>
                         difficulty (players g' ! i) = ascii ''medium''))
               \<and> (data_type (pds ! i) \<noteq> Some (ascii ''ComputerPlayer'') \<longrightarrow>
                    is_HumanPlayer (players g' ! i)
                    \<and> (data_email (pds ! i) = None \<longrightarrow> email (players g' ! i) = [])
                    \<and> (data_username (pds ! i) = None \<longrightarrow> username (players g' ! i) = [])))"
    ..
  note g' = all [THEN conjunct1] all [THEN conjunct2, THEN conjunct1]
    all [THEN conjunct2, THEN conjunct2, THEN conjunct1]
    all [THEN conjunct2, THEN conjunct2, THEN conjunct2, THEN conjunct1]
  note each = all [THEN conjunct2, THEN conjunct2, THEN conjunct2, THEN conjunct2]
  have i0: "(0::nat) < length pds" and i1: "(1::nat) < length pds" using two by simp_all
  note each0 = each [rule_format, OF i0]
  note each1 = each [rule_format, OF i1]
  from each0 t have e0:
    "is_ComputerPlayer (players g' ! 0)" "difficulty (players g' ! 0) = ascii ''medium''"
    by simp_all
  from each1 t have e1:
    "is_HumanPlayer (players g' ! 1)" "name (players g' ! 1) = ascii ''Ann''"
    "score (players g' ! 1) = 3" "email (players g' ! 1) = []" "username (players g' ! 1) = []"
    by simp_all
  have p: "data_players bareSnapshot \<noteq> None" using h by simp
  have r: "length (players g') = 2" "\<not> isGameActive g'" "usedWords g' = []"
    using g'(2-4) two m by simp_all
  show ?thesis
    by (intro conjI p exI [of _ g'] g'(1) r e0 e1)
qed

section \<open>The restored computer player of \<open>src/unnamed/part_000\<close>\<close>

lemma categoryWords_emptied:
  "categoryWords
     [([1075, 1086, 1088, 1086, 1076, 1072], []),
      ([1078, 1080, 1074, 1086, 1090, 1085, 1099, 1077], []),
      ([1088, 1072, 1089, 1090, 1077, 1085, 1080, 1103], [])] cat = []"
  by (simp add: categoryWords_def)

lemma restorePlayer_part000_computer:
  assumes "is_ComputerPlayer (restorePlayer_part000 d)"
  shows "wordDatabase (restorePlayer_part000 d) =
     [([1075, 1086, 1088, 1086, 1076, 1072], []),
      ([1078, 1080, 1074, 1086, 1090, 1085, 1099, 1077], []),
      ([1088, 1072, 1089, 1090, 1077, 1085, 1080, 1103], [])]"
  using assms
  by (cases "data_type d = Some (ascii ''ComputerPlayer'')")
     (simp_all add: restorePlayer_part000_def deserialize_player_part000_def
        new_ComputerPlayer_part000_def new_HumanPlayer_def)

lemma no_words_no_move:
  assumes "is_ComputerPlayer p" and "\<forall>cat. categoryWords (wordDatabase p) cat = []"
  shows "makeMove_part000 toLowerCase p lw used cat inp = None"
  using assms by (cases p) (simp_all add: getAvailableWords_def Let_def)

lemma computer_addPoint:
  "is_ComputerPlayer p \<Longrightarrow>
   is_ComputerPlayer (addPoint k p) \<and> wordDatabase (addPoint k p) = wordDatabase p"
  by (cases p) (simp_all add: addPoint_def)

lemma computer_resetScore:
  "is_ComputerPlayer p \<Longrightarrow>
   is_ComputerPlayer (resetScore p) \<and> wordDatabase (resetScore p) = wordDatabase p"
  by (cases p) (simp_all add: resetScore_def)

lemma cities_part000:
  "categoryWords wordDatabase_part000 [1075, 1086, 1088, 1086, 1076, 1072] =
     [[1052, 1086, 1089, 1082, 1074, 1072],
      [1040, 1084, 1089, 1090, 1077, 1088, 1076, 1072, 1084],
      [1052, 1072, 1076, 1088, 1080, 1076],
      [1051, 1086, 1085, 1076, 1086, 1085],
      [1054, 1089, 1083, 1086],
      [1054, 1084, 1089, 1082],
      [1050, 1080, 1077, 1074],
      [1042, 1072, 1088, 1096, 1072, 1074, 1072],
      [1040, 1092, 1080, 1085, 1099],
      [1057, 1086, 1095, 1080]]"
  by (simp add: categoryWords_def wordDatabase_part000_def)

lemma fitsChain_first_word: "fitsChain toLowerCase [] [] w"
  by (simp add: fitsChain_def set_has_def Let_def)

text \<open>
  C10. In \<open>src/unnamed/part_000\<close> a computer player restored by \<open>deserialize\<close> has an
  empty word list for every category. Its candidate list is empty in every game
  context, \<open>makeMove\<close> returns \<open>null\<close>, and this stays so when its score is changed or
  reset: every turn of such a player is a skip.
\<close>

theorem restored_computer_never_moves:
  assumes "deserialize_part000 g data = Inr g'" and "p \<in> set (players g')"
    and "is_ComputerPlayer p"
  shows "categoryWords (wordDatabase p) cat = []
       \<and> getAvailableWords toLowerCase (wordDatabase p) lw used cat = []
       \<and> makeMove_part000 toLowerCase p lw used cat inp = None
       \<and> wordDatabase (addPoint k p) = wordDatabase p
       \<and> wordDatabase (resetScore p) = wordDatabase p
       \<and> (\<forall>l::loop. is_ComputerPlayer (players (state l) ! playerIdx l)
              \<and> wordDatabase (players (state l) ! playerIdx l) = wordDatabase p
              \<longrightarrow> \<not> accepts_part000 toLowerCase l inp)"
proof -
  from assms(1) obtain pds where "players g' = map restorePlayer_part000 pds"
    by (auto simp: deserialize_part000_def split: option.splits)
  with assms(2) obtain d where "p = restorePlayer_part000 d" by auto
  with assms(3) have db: "wordDatabase p =
     [([1075, 1086, 1088, 1086, 1076, 1072], []),
      ([1078, 1080, 1074, 1086, 1090, 1085, 1099, 1077], []),
      ([1088, 1072, 1089, 1090, 1077, 1085, 1080, 1103], [])]"
    using restorePlayer_part000_computer by simp
  have e: "\<forall>c. categoryWords (wordDatabase p) c = []"
    unfolding db using categoryWords_emptied by simp
  have a: "getAvailableWords toLowerCase (wordDatabase p) lw used cat = []"
    using e by (simp add: getAvailableWords_def Let_def)
  have t: "\<forall>l::loop. is_ComputerPlayer (players (state l) ! playerIdx l)
              \<and> wordDatabase (players (state l) ! playerIdx l) = wordDatabase p
              \<longrightarrow> \<not> accepts_part000 toLowerCase l inp"
  proof (intro allI impI)
    fix l :: loop
    assume q: "is_ComputerPlayer (players (state l) ! playerIdx l)
              \<and> wordDatabase (players (state l) ! playerIdx l) = wordDatabase p"
    then have "\<forall>c. categoryWords (wordDatabase (players (state l) ! playerIdx l)) c = []"
      using e by simp
    with q have "submission_part000 toLowerCase l inp = None"
      unfolding submission_part000_def using no_words_no_move by blast
    then show "\<not> accepts_part000 toLowerCase l inp" by (simp add: accepts_part000_def)
  qed
  show ?thesis
    by (intro conjI e [rule_format] a no_words_no_move [OF assms(3) e]
          computer_addPoint [OF assms(3), THEN conjunct2]
          computer_resetScore [OF assms(3), THEN conjunct2] t)
qed

theorem restored_computer_never_moves_witness:
  "(\<exists>g'. deserialize_part000 twoHumans bareSnapshot = Inr g'
          \<and> is_ComputerPlayer (players g' ! 0)
          \<and> makeMove_part000 lowerLatinCyrillic (players g' ! 0) [] [] [1075, 1086, 1088, 1086,
              1076, 1072]
               (types []) = None)
   \<and> makeMove_part000 lowerLatinCyrillic (new_ComputerPlayer_part000 (ascii ''medium'') [])
        [] [] [1075, 1086, 1088, 1086, 1076, 1072] (types []) \<noteq> None"
proof -
  define g' where "g' = twoHumans\<lparr>players :=
        map restorePlayer_part000 (the (data_players bareSnapshot)),
      usedWords := [], currentCategory := [], lastWord := [], isGameActive := False,
      currentUser := None\<rparr>"
  have d: "deserialize_part000 twoHumans bareSnapshot = Inr g'"
    by (simp add: deserialize_part000_def bareSnapshot_def g'_def orEmpty_def orString_def
          orFalse_def new_Set_def)
  have c: "is_ComputerPlayer (players g' ! 0)"
    by (simp add: g'_def bareSnapshot_def restorePlayer_part000_def
          deserialize_player_part000_def new_ComputerPlayer_part000_def)
  have m: "players g' ! 0 \<in> set (players g')" by (simp add: g'_def bareSnapshot_def)
  from restored_computer_never_moves [OF d m c]
  have n: "makeMove_part000 lowerLatinCyrillic (players g' ! 0) [] [] [1075, 1086, 1088, 1086,
      1076, 1072]
               (types []) = None" by blast
  have w: "getAvailableWords lowerLatinCyrillic wordDatabase_part000 [] [] [1075, 1086, 1088,
      1086, 1076, 1072]
             \<noteq> []"
    unfolding getAvailableWords_def Let_def cities_part000
    by (simp add: fitsChain_first_word)
  have f: "makeMove_part000 lowerLatinCyrillic (new_ComputerPlayer_part000 (ascii ''medium'') [])
        [] [] [1075, 1086, 1088, 1086, 1076, 1072] (types []) \<noteq> None"
    unfolding new_ComputerPlayer_part000_def makeMove_part000_None_iff by (rule w)
  show ?thesis
    by (intro conjI exI [of _ g'] d c n f)
qed

section \<open>The end of the game by rejected turns\<close>

lemma returned_idem: "returned l \<Longrightarrow> l\<lparr>returned := True\<rparr> = l"
  by (cases l) simp

lemma gameLoop_from_returned: "returned l \<Longrightarrow> gameLoop_from toLowerCase l inps = Inr l"
  by (cases inps) (simp_all add: returned_idem)

lemma keep_last_highest:
  "\<exists>pre post.
      a # xs = pre @ foldl (\<lambda>a b. if score a > score b then a else b) a xs # post
      \<and> (\<forall>x\<in>set pre.
            score x \<le> score (foldl (\<lambda>a b. if score a > score b then a else b) a xs))
      \<and> (\<forall>x\<in>set post.
            score x < score (foldl (\<lambda>a b. if score a > score b then a else b) a xs))"
proof (induction xs rule: rev_induct)
  case Nil
  show ?case by (rule exI [of _ "[]"], rule exI [of _ "[]"]) simp
next
  case (snoc x xs)
  let ?f = "\<lambda>a b. if score a > score b then a else b"
  let ?r = "foldl ?f a xs"
  from snoc obtain pre post where d: "a # xs = pre @ ?r # post"
    and p1: "\<forall>y\<in>set pre. score y \<le> score ?r"
    and p2: "\<forall>y\<in>set post. score y < score ?r"
    by blast
  show ?case
  proof (cases "score ?r > score x")
    case True
    then have r: "foldl ?f a (xs @ [x]) = ?r" by simp
    have e: "a # xs @ [x] = pre @ ?r # (post @ [x])" using d by simp
    have "\<forall>y\<in>set (post @ [x]). score y < score ?r" using p2 True by auto
    with e p1 show ?thesis unfolding r
      by (intro exI [of _ pre] exI [of _ "post @ [x]"]) simp
  next
    case False
    then have r: "foldl ?f a (xs @ [x]) = x" by simp
    have e: "a # xs @ [x] = (pre @ ?r # post) @ x # []" using d by simp
    have "\<forall>y\<in>set (pre @ ?r # post). score y \<le> score x"
      using p1 p2 False by auto
    with e show ?thesis unfolding r
      by (intro exI [of _ "pre @ ?r # post"] exI [of _ "[]"]) simp
  qed
qed

lemma showWinner_last_highest:
  assumes "ps \<noteq> []"
  shows "\<exists>w pre post. showWinner ps = Inr w \<and> ps = pre @ w # post
           \<and> (\<forall>p\<in>set pre. score p \<le> score w) \<and> (\<forall>p\<in>set post. score p < score w)"
proof -
  from assms obtain a xs where ps: "ps = a # xs" by (cases ps) auto
  let ?w = "foldl (\<lambda>a b. if score a > score b then a else b) a xs"
  have s: "showWinner ps = Inr ?w" by (simp add: showWinner_def ps)
  from keep_last_highest [of a xs] obtain pre post where
    d: "ps = pre @ ?w # post" and p1: "\<forall>p\<in>set pre. score p \<le> score ?w"
    and p2: "\<forall>p\<in>set post. score p < score ?w"
    unfolding ps by blast
  show ?thesis
    by (intro exI [of _ ?w] exI [of _ pre] exI [of _ post] conjI s d p1 p2)
qed

lemma rejectWord_last:
  assumes "players (state l) \<noteq> []" and "skipped l + 1 \<ge> MAX_SKIPPED_TURNS"
  shows "\<exists>l' w. rejectWord l = Inr l' \<and> returned l' \<and> winner l' = Some w
           \<and> showWinner (players (state l)) = Inr w \<and> state l' = state l"
proof -
  from finish_effect [of "l\<lparr>skipped := skipped l + 1\<rparr>"] assms(1)
  obtain l' w where "finish (l\<lparr>skipped := skipped l + 1\<rparr>) = Inr l'"
    "state l' = state l" "returned l'" "winner l' = Some w"
    "showWinner (players (state l)) = Inr w"
    by auto
  with assms(2) show ?thesis by (simp add: rejectWord_def Let_def)
qed

lemma rejectWord_first:
  assumes "playerIdx l < length (players (state l))" and "skipped l + 1 < MAX_SKIPPED_TURNS"
  shows "rejectWord l = Inr (nextPlayer (l\<lparr>skipped := skipped l + 1\<rparr>))"
    and "playerIdx (nextPlayer (l\<lparr>skipped := skipped l + 1\<rparr>)) < length (players (state l))"
    and "state (nextPlayer (l\<lparr>skipped := skipped l + 1\<rparr>)) = state l"
    and "skipped (nextPlayer (l\<lparr>skipped := skipped l + 1\<rparr>)) = skipped l + 1"
    and "returned (nextPlayer (l\<lparr>skipped := skipped l + 1\<rparr>)) = returned l"
proof -
  have "players (state l) \<noteq> []" using assms(1) by auto
  then have pos: "0 < length (players (state l))" by simp
  show "rejectWord l = Inr (nextPlayer (l\<lparr>skipped := skipped l + 1\<rparr>))"
    using assms(2) by (simp add: rejectWord_def Let_def)
  show "playerIdx (nextPlayer (l\<lparr>skipped := skipped l + 1\<rparr>)) < length (players (state l))"
    using pos by (simp add: nextPlayer_def)
  show "state (nextPlayer (l\<lparr>skipped := skipped l + 1\<rparr>)) = state l"
    by (simp add: nextPlayer_def)
  show "skipped (nextPlayer (l\<lparr>skipped := skipped l + 1\<rparr>)) = skipped l + 1"
    by (simp add: nextPlayer_def)
  show "returned (nextPlayer (l\<lparr>skipped := skipped l + 1\<rparr>)) = returned l"
    by (simp add: nextPlayer_def)
qed

lemma two_rejections_return:
  assumes idx: "playerIdx l < length (players (state l))"
    and run: "\<not> returned l" "continues l"
    and r1: "\<not> accepts toLowerCase l i1"
    and r2: "\<forall>l1. turn toLowerCase l i1 = Inr l1 \<longrightarrow> \<not> accepts toLowerCase l1 i2"
  shows "\<exists>l2 w. gameLoop_from toLowerCase l (i1 # i2 # rest) = Inr l2 \<and> returned l2
           \<and> winner l2 = Some w \<and> showWinner (players (state l)) = Inr w
           \<and> state l2 = state l"
proof -
  from idx have ne: "players (state l) \<noteq> []" by auto
  have t1: "turn toLowerCase l i1 = rejectWord l" by (rule turn_rejected [OF idx r1])
  show ?thesis
  proof (cases "skipped l + 1 \<ge> MAX_SKIPPED_TURNS")
    case True
    from rejectWord_last [OF ne True] obtain l' w where
      l': "rejectWord l = Inr l'" "returned l'" "winner l' = Some w"
        "showWinner (players (state l)) = Inr w" "state l' = state l"
      by blast
    have "gameLoop_from toLowerCase l (i1 # i2 # rest) = gameLoop_from toLowerCase l' (i2 # rest)"
      using run t1 l'(1) by simp
    also have "\<dots> = Inr l'" by (rule gameLoop_from_returned [OF l'(2)])
    finally show ?thesis using l' by blast
  next
    case False
    then have lt: "skipped l + 1 < MAX_SKIPPED_TURNS" by simp
    let ?l1 = "nextPlayer (l\<lparr>skipped := skipped l + 1\<rparr>)"
    note f = rejectWord_first [OF idx lt]
    have a1: "turn toLowerCase l i1 = Inr ?l1" using t1 f(1) by simp
    note s1 = f(3) and k1 = f(4)
    have ret1: "\<not> returned ?l1" using f(5) run(1) by simp
    have idx1: "playerIdx ?l1 < length (players (state ?l1))" using f(2) f(3) by simp
    have c1: "continues ?l1"
      unfolding continues_def s1 k1 using run(2) lt by (simp add: continues_def)
    have "\<not> accepts toLowerCase ?l1 i2" using r2 a1 by blast
    then have t2: "turn toLowerCase ?l1 i2 = rejectWord ?l1" by (rule turn_rejected [OF idx1])
    have ne1: "players (state ?l1) \<noteq> []" using ne s1 by simp
    have "skipped l = 0" using lt by (simp add: MAX_SKIPPED_TURNS_def)
    then have last: "skipped ?l1 + 1 \<ge> MAX_SKIPPED_TURNS"
      unfolding k1 by (simp add: MAX_SKIPPED_TURNS_def)
    from rejectWord_last [OF ne1 last] obtain l2 w where
      l2: "rejectWord ?l1 = Inr l2" "returned l2" "winner l2 = Some w"
        "showWinner (players (state ?l1)) = Inr w" "state l2 = state ?l1"
      by blast
    have "gameLoop_from toLowerCase l (i1 # i2 # rest) = gameLoop_from toLowerCase ?l1 (i2 # rest)"
      using run a1 by simp
    also have "\<dots> = gameLoop_from toLowerCase l2 rest"
      using ret1 c1 t2 l2(1) by simp
    also have "\<dots> = Inr l2" by (rule gameLoop_from_returned [OF l2(2)])
    finally show ?thesis using l2 s1 by auto
  qed
qed

text \<open>
  C1, amended. When two consecutive submissions are rejected with no accepted word in
  between, the game loop of \<open>src/app.js\<close> returns and takes no further move, and the
  winner it announces is the player with the highest score, the latest in turn order
  among players with that score: every player before the winner has at most the
  winner's score and every player after it has strictly less. The rejections change
  neither the players nor the used set.
\<close>

theorem attrition_ends_game:
  assumes "playerIdx l < length (players (state l))"
    and "\<not> returned l" and "continues l"
    and "\<not> accepts toLowerCase l i1"
    and "\<forall>l1. turn toLowerCase l i1 = Inr l1 \<longrightarrow> \<not> accepts toLowerCase l1 i2"
  shows "\<exists>l2 w pre post.
           gameLoop_from toLowerCase l (i1 # i2 # rest) = Inr l2
           \<and> returned l2 \<and> (\<forall>more. gameLoop_from toLowerCase l2 more = Inr l2)
           \<and> winner l2 = Some w
           \<and> players (state l2) = pre @ w # post
           \<and> (\<forall>p\<in>set pre. score p \<le> score w)
           \<and> (\<forall>p\<in>set post. score p < score w)
           \<and> players (state l2) = players (state l)
           \<and> usedWords (state l2) = usedWords (state l)"
proof -
  from two_rejections_return [OF assms, of rest] obtain l2 w where
    l2: "gameLoop_from toLowerCase l (i1 # i2 # rest) = Inr l2" "returned l2" "winner l2 = Some w"
      "showWinner (players (state l)) = Inr w" "state l2 = state l"
    by blast
  from assms(1) have "players (state l) \<noteq> []" by auto
  from showWinner_last_highest [OF this] l2(4) obtain pre post where
    w: "players (state l) = pre @ w # post" "\<forall>p\<in>set pre. score p \<le> score w"
      "\<forall>p\<in>set post. score p < score w"
    by auto
  have m: "\<forall>more. gameLoop_from toLowerCase l2 more = Inr l2"
    using gameLoop_from_returned [OF l2(2)] by simp
  have e: "players (state l2) = pre @ w # post" "players (state l2) = players (state l)"
    "usedWords (state l2) = usedWords (state l)"
    using w(1) l2(5) by simp_all
  show ?thesis
    by (intro exI [of _ l2] exI [of _ w] exI [of _ pre] exI [of _ post] conjI
          l2(1) l2(2) m l2(3) e w(2) w(3))
qed

lemma twoHumans_first_rejection:
  "turn lowerLatinCyrillic (enter twoHumans) (types []) =
     Inr \<lparr>state = twoHumans, playerIdx = 1, skipped = 1, round_no = 1, winner = None,
          returned = False\<rparr>"
proof -
  have i: "playerIdx (enter twoHumans) < length (players (state (enter twoHumans)))"
    by (simp add: enter_def twoHumans_def)
  have "turn lowerLatinCyrillic (enter twoHumans) (types []) = rejectWord (enter twoHumans)"
    by (rule turn_rejected [OF i twoHumans_empty_rejected])
  also have "\<dots> = Inr \<lparr>state = twoHumans, playerIdx = 1, skipped = 1, round_no = 1,
       winner = None, returned = False\<rparr>"
    by (simp add: rejectWord_def Let_def MAX_SKIPPED_TURNS_def nextPlayer_def enter_def
          twoHumans_def)
  finally show ?thesis .
qed

lemma twoHumans_second_rejected:
  "\<not> accepts lowerLatinCyrillic
       \<lparr>state = twoHumans, playerIdx = 1, skipped = 1, round_no = 1, winner = None,
        returned = False\<rparr> (types [])"
  by (simp add: accepts_def submission_def twoHumans_def types_def trim_def ascii_def)

lemma twoHumans_second_rejection:
  "turn lowerLatinCyrillic
     \<lparr>state = twoHumans, playerIdx = 1, skipped = 1, round_no = 1, winner = None,
      returned = False\<rparr> (types []) =
     Inr \<lparr>state = twoHumans, playerIdx = 1, skipped = 2, round_no = 1,
          winner = Some (HumanPlayer (ascii ''Bob'') 0 (ascii ''b1'') [] []),
          returned = True\<rparr>"
proof -
  let ?l1 = "\<lparr>state = twoHumans, playerIdx = 1, skipped = 1, round_no = 1, winner = None,
          returned = False\<rparr>"
  have i: "playerIdx ?l1 < length (players (state ?l1))" by (simp add: twoHumans_def)
  have w: "showWinner (players twoHumans) =
             Inr (HumanPlayer (ascii ''Bob'') 0 (ascii ''b1'') [] [])"
    by (simp add: showWinner_def twoHumans_def)
  have "turn lowerLatinCyrillic ?l1 (types []) = rejectWord ?l1"
    by (rule turn_rejected [OF i twoHumans_second_rejected])
  also have "\<dots> = Inr \<lparr>state = twoHumans, playerIdx = 1, skipped = 2, round_no = 1,
          winner = Some (HumanPlayer (ascii ''Bob'') 0 (ascii ''b1'') [] []),
          returned = True\<rparr>"
    by (simp add: rejectWord_def Let_def MAX_SKIPPED_TURNS_def finish_def w)
  finally show ?thesis .
qed

lemma twoHumans_continues:
  "continues (enter twoHumans)"
  "continues \<lparr>state = twoHumans, playerIdx = 1, skipped = 1, round_no = 1, winner = None,
          returned = False\<rparr>"
  by (simp_all add: continues_def enter_def twoHumans_def MAX_SKIPPED_TURNS_def)

lemma gameLoop_from_step:
  "\<not> returned l \<Longrightarrow> continues l \<Longrightarrow> turn toLowerCase l inp = Inr l' \<Longrightarrow>
   gameLoop_from toLowerCase l (inp # inps) = gameLoop_from toLowerCase l' inps"
  by simp

text \<open>
  C1, as stated, fails: Ann and Bob both enter an empty line. The loop returns with Bob,
  the second player, announced as the winner although Ann has the same score, and the
  active flag of the game is still true.
\<close>

theorem attrition_winner_counterexample:
  "gameLoop lowerLatinCyrillic twoHumans [types [], types []] =
     Inr \<lparr>state = twoHumans, playerIdx = 1, skipped = 2, round_no = 1,
          winner = Some (HumanPlayer (ascii ''Bob'') 0 (ascii ''b1'') [] []),
          returned = True\<rparr>
   \<and> players twoHumans ! 0 = HumanPlayer (ascii ''Ann'') 0 (ascii ''a1'') [] (ascii ''ann'')
   \<and> players twoHumans ! 1 = HumanPlayer (ascii ''Bob'') 0 (ascii ''b1'') [] []
   \<and> isGameActive twoHumans"
proof -
  let ?l1 = "\<lparr>state = twoHumans, playerIdx = 1, skipped = 1, round_no = 1, winner = None,
          returned = False\<rparr>"
  let ?l2 = "\<lparr>state = twoHumans, playerIdx = 1, skipped = 2, round_no = 1,
          winner = Some (HumanPlayer (ascii ''Bob'') 0 (ascii ''b1'') [] []),
          returned = True\<rparr>"
  have r: "\<not> returned (enter twoHumans)" by (simp add: enter_def)
  have r1: "\<not> returned ?l1" by simp
  have r2: "returned ?l2" by simp
  have "gameLoop lowerLatinCyrillic twoHumans [types [], types []] =
        gameLoop_from lowerLatinCyrillic (enter twoHumans) [types [], types []]"
    by (simp only: gameLoop_def)
  also have "\<dots> = gameLoop_from lowerLatinCyrillic ?l1 [types []]"
    by (rule gameLoop_from_step [OF r twoHumans_continues(1) twoHumans_first_rejection])
  also have "\<dots> = gameLoop_from lowerLatinCyrillic ?l2 []"
    by (rule gameLoop_from_step [OF r1 twoHumans_continues(2) twoHumans_second_rejection])
  also have "\<dots> = Inr ?l2" by (rule gameLoop_from_returned [OF r2])
  finally have g: "gameLoop lowerLatinCyrillic twoHumans [types [], types []] = Inr ?l2" .
  have p: "players twoHumans ! 0 = HumanPlayer (ascii ''Ann'') 0 (ascii ''a1'') [] (ascii ''ann'')"
    "players twoHumans ! 1 = HumanPlayer (ascii ''Bob'') 0 (ascii ''b1'') [] []"
    "isGameActive twoHumans"
    by (simp_all add: twoHumans_def)
  show ?thesis by (intro conjI g p)
qed

theorem attrition_ends_game_witness:
  "playerIdx (enter twoHumans) < length (players (state (enter twoHumans)))
   \<and> \<not> returned (enter twoHumans) \<and> continues (enter twoHumans)
   \<and> \<not> accepts lowerLatinCyrillic (enter twoHumans) (types [])
   \<and> turn lowerLatinCyrillic (enter twoHumans) (types []) =
       Inr \<lparr>state = twoHumans, playerIdx = 1, skipped = 1, round_no = 1, winner = None,
            returned = False\<rparr>
   \<and> \<not> accepts lowerLatinCyrillic
         \<lparr>state = twoHumans, playerIdx = 1, skipped = 1, round_no = 1, winner = None,
          returned = False\<rparr> (types [])
   \<and> (\<exists>l2 w pre post.
         gameLoop_from lowerLatinCyrillic (enter twoHumans)
           [types [], types [], types ''Moscow''] = Inr l2
         \<and> returned l2 \<and> (\<forall>more. gameLoop_from lowerLatinCyrillic l2 more = Inr l2)
         \<and> winner l2 = Some w
         \<and> players (state l2) = pre @ w # post
         \<and> (\<forall>p\<in>set pre. score p \<le> score w)
         \<and> (\<forall>p\<in>set post. score p < score w)
         \<and> players (state l2) = players (state (enter twoHumans))
         \<and> usedWords (state l2) = usedWords (state (enter twoHumans)))"
proof -
  have i: "playerIdx (enter twoHumans) < length (players (state (enter twoHumans)))"
    by (simp add: enter_def twoHumans_def)
  have r: "\<not> returned (enter twoHumans)" by (simp add: enter_def)
  have n: "\<forall>l1. turn lowerLatinCyrillic (enter twoHumans) (types []) = Inr l1 \<longrightarrow> \<not> accepts
      lowerLatinCyrillic l1 (types [])"
    using twoHumans_second_rejected by (simp add: twoHumans_first_rejection)
  note t = attrition_ends_game [OF i r twoHumans_continues(1) twoHumans_empty_rejected n,
      of "[types ''Moscow'']"]
  show ?thesis
    by (intro conjI i r twoHumans_continues(1) twoHumans_empty_rejected
          twoHumans_first_rejection twoHumans_second_rejected t)
qed

section \<open>The end of the game by the word count\<close>

lemma validateWord_new: "validateWord toLowerCase g w \<Longrightarrow> \<not> set_has (usedWords g) (toLowerCase w)"
  by (auto simp: validateWord_def Let_def split: if_splits)

lemma validateWord_part000_new:
  "validateWord_part000 toLowerCase w lw used \<Longrightarrow> \<not> set_has used (toLowerCase w)"
  by (auto simp: validateWord_part000_def Let_def split: if_splits)

lemma set_size_add_new: "\<not> set_has s x \<Longrightarrow> set_size (set_add s x) = set_size s + 1"
  by (simp add: set_add_def set_size_def)

lemma acceptWord_state:
  assumes idx: "playerIdx l < length (players (state l))"
    and act: "isGameActive (state l)"
  shows "\<exists>l'. acceptWord toLowerCase l w = Inr l'
           \<and> usedWords (state l') = set_add (usedWords (state l)) (toLowerCase w)
           \<and> length (players (state l')) = length (players (state l))
           \<and> playerIdx l' < length (players (state l'))
           \<and> (isGameActive (state l') \<longleftrightarrow>
                set_size (set_add (usedWords (state l)) (toLowerCase w)) < MAX_WORDS_FOR_WIN)"
proof (cases "set_size (set_add (usedWords (state l)) (toLowerCase w)) \<ge> MAX_WORDS_FOR_WIN")
  case True
  define g1 where "g1 =
    (state l)\<lparr>usedWords := set_add (usedWords (state l)) (toLowerCase w),
              lastWord := w,
              players := (players (state l))
                [playerIdx l := addPoint (min (int (length w) div 2) 3)
                   (players (state l) ! playerIdx l)]\<rparr>"
  define l1 where "l1 =
    (l\<lparr>state := g1, skipped := 0, round_no := round_no l + 1\<rparr>)
      \<lparr>state := g1\<lparr>isGameActive := False\<rparr>\<rparr>"
  have a: "acceptWord toLowerCase l w = finish l1"
    using True by (simp add: acceptWord_def Let_def l1_def g1_def)
  have "players (state l1) \<noteq> []" using idx by (auto simp: l1_def g1_def)
  from finish_effect [OF this] obtain l' where
    "finish l1 = Inr l'" "state l' = state l1" "playerIdx l' = playerIdx l1" by blast
  then show ?thesis unfolding a using True idx by (simp add: l1_def g1_def)
next
  case False
  have "players (state l) \<noteq> []" using idx by auto
  then have pos: "0 < length (players (state l))" by simp
  from False act pos show ?thesis by (simp add: acceptWord_def Let_def nextPlayer_def)
qed

lemma rejectWord_state:
  assumes idx: "playerIdx l < length (players (state l))"
  shows "\<exists>l'. rejectWord l = Inr l' \<and> state l' = state l
           \<and> playerIdx l' < length (players (state l'))"
proof (cases "skipped l + 1 \<ge> MAX_SKIPPED_TURNS")
  case True
  have "players (state (l\<lparr>skipped := skipped l + 1\<rparr>)) \<noteq> []" using idx by auto
  from finish_effect [OF this] obtain l' where
    "finish (l\<lparr>skipped := skipped l + 1\<rparr>) = Inr l'"
    "state l' = state (l\<lparr>skipped := skipped l + 1\<rparr>)"
    "playerIdx l' = playerIdx (l\<lparr>skipped := skipped l + 1\<rparr>)" by blast
  then show ?thesis using True idx by (simp add: rejectWord_def Let_def)
next
  case False
  have "players (state l) \<noteq> []" using idx by auto
  then have pos: "0 < length (players (state l))" by simp
  from False pos show ?thesis by (simp add: rejectWord_def Let_def nextPlayer_def)
qed

text \<open>
  What every iteration keeps: the index of the player is in range, at most five words
  are used, and the game is active exactly while fewer than five words are used. An
  accepted submission adds one word to the used set, a rejected one leaves the set as
  it is.
\<close>

lemma turn_keeps:
  assumes idx: "playerIdx l < length (players (state l))"
    and act: "isGameActive (state l)"
    and lt: "set_size (usedWords (state l)) < 5"
  shows "\<exists>l'. turn toLowerCase l inp = Inr l'
           \<and> playerIdx l' < length (players (state l'))
           \<and> set_size (usedWords (state l')) \<le> 5
           \<and> (isGameActive (state l') \<longleftrightarrow> set_size (usedWords (state l')) < 5)
           \<and> (accepts toLowerCase l inp \<longrightarrow>
                set_size (usedWords (state l')) = set_size (usedWords (state l)) + 1)
           \<and> (\<not> accepts toLowerCase l inp \<longrightarrow> usedWords (state l') = usedWords (state l))"
proof (cases "accepts toLowerCase l inp")
  case True
  from turn_accepted [OF idx True] obtain w where
    w: "validateWord toLowerCase (state l) w"
      "turn toLowerCase l inp = acceptWord toLowerCase l w" by blast
  from acceptWord_state [OF idx act, of toLowerCase w] obtain l' where
    l': "acceptWord toLowerCase l w = Inr l'"
      "usedWords (state l') = set_add (usedWords (state l)) (toLowerCase w)"
      "playerIdx l' < length (players (state l'))"
      "isGameActive (state l') \<longleftrightarrow>
         set_size (set_add (usedWords (state l)) (toLowerCase w)) < MAX_WORDS_FOR_WIN"
    by blast
  have n: "set_size (usedWords (state l')) = set_size (usedWords (state l)) + 1"
    unfolding l'(2) by (rule set_size_add_new [OF validateWord_new [OF w(1)]])
  have "set_size (usedWords (state l')) \<le> 5" using n lt by simp
  moreover have "isGameActive (state l') \<longleftrightarrow> set_size (usedWords (state l')) < 5"
    using l'(4) by (simp add: l'(2) MAX_WORDS_FOR_WIN_def)
  ultimately show ?thesis using True w(2) l'(1) l'(3) n by simp
next
  case False
  have t: "turn toLowerCase l inp = rejectWord l" by (rule turn_rejected [OF idx False])
  from rejectWord_state [OF idx] obtain l' where
    "rejectWord l = Inr l'" "state l' = state l" "playerIdx l' < length (players (state l'))"
    by blast
  then show ?thesis using t False act lt by simp
qed

lemma gameLoop_from_keeps:
  assumes "playerIdx l < length (players (state l))"
    and "set_size (usedWords (state l)) \<le> 5"
    and "isGameActive (state l) \<longleftrightarrow> set_size (usedWords (state l)) < 5"
  shows "\<exists>l'. gameLoop_from toLowerCase l inps = Inr l'
           \<and> playerIdx l' < length (players (state l'))
           \<and> set_size (usedWords (state l')) \<le> 5
           \<and> (isGameActive (state l') \<longleftrightarrow> set_size (usedWords (state l')) < 5)
           \<and> (\<not> returned l' \<longrightarrow> continues l')"
  using assms
proof (induction inps arbitrary: l)
  case Nil
  then show ?case by simp
next
  case (Cons inp inps)
  show ?case
  proof (cases "returned l \<or> \<not> continues l")
    case True
    with Cons.prems show ?thesis by simp
  next
    case False
    then have act: "isGameActive (state l)" by (simp add: continues_def)
    with Cons.prems(3) have lt: "set_size (usedWords (state l)) < 5" by simp
    from turn_keeps [OF Cons.prems(1) act lt, of toLowerCase inp] obtain l1 where
      l1: "turn toLowerCase l inp = Inr l1" "playerIdx l1 < length (players (state l1))"
        "set_size (usedWords (state l1)) \<le> 5"
        "isGameActive (state l1) \<longleftrightarrow> set_size (usedWords (state l1)) < 5"
      by blast
    have "gameLoop_from toLowerCase l (inp # inps) = gameLoop_from toLowerCase l1 inps"
      using False l1(1) by simp
    with Cons.IH [OF l1(2) l1(3) l1(4)] show ?thesis by simp
  qed
qed

text \<open>
  The loop reads its inputs one after the other: the run on \<open>xs @ ys\<close> is the run on
  \<open>ys\<close> from where the run on \<open>xs\<close> has arrived, and a loop that has returned reads
  nothing more.
\<close>

lemma gameLoop_from_append:
  "gameLoop_from toLowerCase l (xs @ ys) =
     (case gameLoop_from toLowerCase l xs of
        Inl e \<Rightarrow> Inl e
      | Inr l' \<Rightarrow> gameLoop_from toLowerCase l' ys)"
proof (induction xs arbitrary: l)
  case Nil
  show ?case
  proof (cases "returned l \<or> \<not> continues l")
    case True
    have "gameLoop_from toLowerCase l ys = Inr (l\<lparr>returned := True\<rparr>)"
      using True by (cases ys) simp_all
    moreover have "gameLoop_from toLowerCase (l\<lparr>returned := True\<rparr>) ys = Inr (l\<lparr>returned := True\<rparr>)"
      by (rule gameLoop_from_returned) simp
    ultimately show ?thesis using True by simp
  next
    case False
    then show ?thesis by simp
  qed
next
  case (Cons x xs)
  show ?case
  proof (cases "returned l \<or> \<not> continues l")
    case True
    have "gameLoop_from toLowerCase (l\<lparr>returned := True\<rparr>) ys = Inr (l\<lparr>returned := True\<rparr>)"
      by (rule gameLoop_from_returned) simp
    with True show ?thesis by simp
  next
    case False
    then show ?thesis using Cons.IH by (cases "turn toLowerCase l x") simp_all
  qed
qed

lemma gameLoop_from_Nil_state:
  "\<exists>l'. gameLoop_from toLowerCase l [] = Inr l' \<and> state l' = state l"
  by simp

text \<open>
  The word count in \<open>src/app.js\<close>. A game starts with an empty used set, the active
  flag set and at least one player. Whatever is submitted, the loop does not throw; in
  the state it has reached at most five words are used, the game is active exactly
  while fewer than five are used, and with five words the loop has returned. The next
  submission is not read once the loop has returned. Otherwise it is the input of one
  more iteration, \<open>turn\<close>, and is all that the run reads further: if it is accepted the
  used set has one element more than before, if it is rejected the used set is as
  before.
\<close>

lemma word_count_win_exact:
  assumes "usedWords g = []" and "isGameActive g" and "players g \<noteq> []"
  shows "\<exists>l. gameLoop toLowerCase g inps = Inr l
           \<and> set_size (usedWords (state l)) \<le> 5
           \<and> (isGameActive (state l) \<longleftrightarrow> set_size (usedWords (state l)) < 5)
           \<and> (set_size (usedWords (state l)) = 5 \<longrightarrow> returned l)
           \<and> (returned l \<longrightarrow> (\<forall>inp. gameLoop toLowerCase g (inps @ [inp]) = Inr l))
           \<and> (\<not> returned l \<longrightarrow>
                (\<forall>inp. \<exists>l1 l'. turn toLowerCase l inp = Inr l1
                   \<and> gameLoop toLowerCase g (inps @ [inp]) = Inr l'
                   \<and> state l' = state l1
                   \<and> (accepts toLowerCase l inp \<longrightarrow>
                        set_size (usedWords (state l')) = set_size (usedWords (state l)) + 1)
                   \<and> (\<not> accepts toLowerCase l inp \<longrightarrow>
                        usedWords (state l') = usedWords (state l))))"
proof -
  have e: "playerIdx (enter g) < length (players (state (enter g)))"
    "set_size (usedWords (state (enter g))) \<le> 5"
    "isGameActive (state (enter g)) \<longleftrightarrow> set_size (usedWords (state (enter g))) < 5"
    using assms by (simp_all add: enter_def set_size_def)
  from gameLoop_from_keeps [OF e, of toLowerCase inps] obtain l where
    l: "gameLoop_from toLowerCase (enter g) inps = Inr l"
      "playerIdx l < length (players (state l))"
      "set_size (usedWords (state l)) \<le> 5"
      "isGameActive (state l) \<longleftrightarrow> set_size (usedWords (state l)) < 5"
      "\<not> returned l \<longrightarrow> continues l"
    by blast
  have r: "set_size (usedWords (state l)) = 5 \<longrightarrow> returned l"
    using l(4) l(5) by (auto simp: continues_def)
  have app: "gameLoop toLowerCase g (inps @ [inp]) = gameLoop_from toLowerCase l [inp]" for inp
    unfolding gameLoop_def gameLoop_from_append l(1) by simp
  have s: "returned l \<longrightarrow> (\<forall>inp. gameLoop toLowerCase g (inps @ [inp]) = Inr l)"
    unfolding app using gameLoop_from_returned by blast
  have t: "\<not> returned l \<longrightarrow>
                (\<forall>inp. \<exists>l1 l'. turn toLowerCase l inp = Inr l1
                   \<and> gameLoop toLowerCase g (inps @ [inp]) = Inr l'
                   \<and> state l' = state l1
                   \<and> (accepts toLowerCase l inp \<longrightarrow>
                        set_size (usedWords (state l')) = set_size (usedWords (state l)) + 1)
                   \<and> (\<not> accepts toLowerCase l inp \<longrightarrow>
                        usedWords (state l') = usedWords (state l)))"
  proof (intro allI impI)
    fix inp assume nr: "\<not> returned l"
    with l(5) have c: "continues l" by simp
    then have act: "isGameActive (state l)" by (simp add: continues_def)
    with l(4) have lt: "set_size (usedWords (state l)) < 5" by simp
    from turn_keeps [OF l(2) act lt, of toLowerCase inp] obtain l1 where
      l1: "turn toLowerCase l inp = Inr l1"
        "accepts toLowerCase l inp \<longrightarrow>
           set_size (usedWords (state l1)) = set_size (usedWords (state l)) + 1"
        "\<not> accepts toLowerCase l inp \<longrightarrow> usedWords (state l1) = usedWords (state l)"
      by blast
    have "gameLoop toLowerCase g (inps @ [inp]) = gameLoop_from toLowerCase l1 []"
      unfolding app using nr c l1(1) by simp
    moreover from gameLoop_from_Nil_state [of toLowerCase l1] obtain l' where
      "gameLoop_from toLowerCase l1 [] = Inr l'" "state l' = state l1" by blast
    ultimately have l': "gameLoop toLowerCase g (inps @ [inp]) = Inr l'" "state l' = state l1"
      by simp_all
    show "\<exists>l1 l'. turn toLowerCase l inp = Inr l1
                   \<and> gameLoop toLowerCase g (inps @ [inp]) = Inr l'
                   \<and> state l' = state l1
                   \<and> (accepts toLowerCase l inp \<longrightarrow>
                        set_size (usedWords (state l')) = set_size (usedWords (state l)) + 1)
                   \<and> (\<not> accepts toLowerCase l inp \<longrightarrow>
                        usedWords (state l') = usedWords (state l))"
      using l1 l' by (intro exI [of _ l1] exI [of _ l']) simp
  qed
  show ?thesis
    unfolding gameLoop_def [of toLowerCase g inps]
    by (intro exI [of _ l] conjI l(1) l(3) l(4) r s t)
qed

subsection \<open>The word count in \<open>src/unnamed/part_000\<close>\<close>

text \<open>
  After the fifth word this copy reads \<open>this.#players[1].score\<close> when there is a human
  player with a user name. The read throws exactly when that player is alone, and a
  point added to a player changes neither.
\<close>

lemma isWin_part000_throws_iff:
  "isWin_part000 ps = Inl TypeError \<longleftrightarrow>
     (\<exists>p. ps = [p] \<and> is_HumanPlayer p \<and> username p \<noteq> [])"
proof (cases ps)
  case Nil
  then show ?thesis by (simp add: isWin_part000_def)
next
  case (Cons p rest)
  show ?thesis
  proof (cases rest)
    case Nil
    with Cons show ?thesis by (simp add: isWin_part000_def)
  next
    case (Cons q rest')
    with \<open>ps = p # rest\<close> have "2 \<le> length ps" by simp
    from isWin_part000_ok [OF this] show ?thesis using Cons \<open>ps = p # rest\<close> by auto
  qed
qed

lemma isWin_part000_addPoint:
  assumes "\<exists>r. isWin_part000 ps = Inr r" and "i < length ps"
  shows "\<exists>r. isWin_part000 (ps[i := addPoint k (ps ! i)]) = Inr r"
proof (cases "2 \<le> length ps")
  case True
  then have "2 \<le> length (ps[i := addPoint k (ps ! i)])" by simp
  then show ?thesis by (rule isWin_part000_ok)
next
  case False
  with assms(2) have "length ps = 1" by simp
  then obtain p where ps: "ps = [p]" by (auto simp: length_Suc_conv)
  with assms(2) have i: "i = 0" by simp
  from assms(1) show ?thesis unfolding ps i
    by (cases p) (auto simp: isWin_part000_def addPoint_def split: if_splits)
qed

lemma turn_part000_accepted_state:
  assumes idx: "playerIdx l < length (players (state l))"
    and acc: "accepts_part000 toLowerCase l inp"
    and ok: "\<exists>r. isWin_part000 (players (state l)) = Inr r"
    and act: "isGameActive (state l)"
  shows "\<exists>w l'. submission_part000 toLowerCase l inp = Some w
           \<and> validateWord_part000 toLowerCase w (lastWord (state l)) (usedWords (state l))
           \<and> turn_part000 toLowerCase l inp = Inr l'
           \<and> usedWords (state l') = set_add (usedWords (state l)) (toLowerCase w)
           \<and> players (state l') =
               (players (state l))[playerIdx l := addPoint 1 (players (state l) ! playerIdx l)]
           \<and> playerIdx l' < length (players (state l'))
           \<and> (isGameActive (state l') \<longleftrightarrow>
                set_size (set_add (usedWords (state l)) (toLowerCase w)) < 5)"
proof -
  from acc obtain w where w: "submission_part000 toLowerCase l inp = Some w" "w \<noteq> []"
    "validateWord_part000 toLowerCase w (lastWord (state l)) (usedWords (state l))"
    by (auto simp: accepts_part000_def split: option.splits)
  let ?ps = "(players (state l))[playerIdx l := addPoint 1 (players (state l) ! playerIdx l)]"
  have ne: "?ps \<noteq> []" using idx by auto
  from showWinner_ok [OF ne] obtain x where x: "showWinner ?ps = Inr x" by blast
  from isWin_part000_addPoint [OF ok idx] obtain r where r: "isWin_part000 ?ps = Inr r"
    by blast
  have pos: "0 < length (players (state l))" using idx by auto
  show ?thesis
    using w x r idx pos act
    by (cases "5 \<le> set_size (set_add (usedWords (state l)) (toLowerCase w))")
       (simp_all add: turn_part000_def wordCountCheck_part000_def submission_part000_def Let_def
          nextPlayer_def)
qed

lemma turn_part000_keeps:
  assumes idx: "playerIdx l < length (players (state l))"
    and act: "isGameActive (state l)"
    and lt: "set_size (usedWords (state l)) < 5"
    and ok: "\<exists>r. isWin_part000 (players (state l)) = Inr r"
  shows "\<exists>l'. turn_part000 toLowerCase l inp = Inr l'
           \<and> playerIdx l' < length (players (state l'))
           \<and> (\<exists>r. isWin_part000 (players (state l')) = Inr r)
           \<and> set_size (usedWords (state l')) \<le> 5
           \<and> (isGameActive (state l') \<longleftrightarrow> set_size (usedWords (state l')) < 5)
           \<and> (accepts_part000 toLowerCase l inp \<longrightarrow>
                set_size (usedWords (state l')) = set_size (usedWords (state l)) + 1)
           \<and> (\<not> accepts_part000 toLowerCase l inp \<longrightarrow>
                usedWords (state l') = usedWords (state l))"
proof (cases "accepts_part000 toLowerCase l inp")
  case True
  from turn_part000_accepted_state [OF idx True ok act] obtain w l' where
    l': "validateWord_part000 toLowerCase w (lastWord (state l)) (usedWords (state l))"
      "turn_part000 toLowerCase l inp = Inr l'"
      "usedWords (state l') = set_add (usedWords (state l)) (toLowerCase w)"
      "players (state l') =
         (players (state l))[playerIdx l := addPoint 1 (players (state l) ! playerIdx l)]"
      "playerIdx l' < length (players (state l'))"
      "isGameActive (state l') \<longleftrightarrow>
         set_size (set_add (usedWords (state l)) (toLowerCase w)) < 5"
    by blast
  have n: "set_size (usedWords (state l')) = set_size (usedWords (state l)) + 1"
    unfolding l'(3) by (rule set_size_add_new [OF validateWord_part000_new [OF l'(1)]])
  have "set_size (usedWords (state l')) \<le> 5" using n lt by simp
  moreover have "isGameActive (state l') \<longleftrightarrow> set_size (usedWords (state l')) < 5"
    using l'(6) by (simp add: l'(3))
  moreover have "\<exists>r. isWin_part000 (players (state l')) = Inr r"
    unfolding l'(4) by (rule isWin_part000_addPoint [OF ok idx])
  ultimately show ?thesis using True l'(2) l'(5) n by simp
next
  case False
  have pos: "0 < length (players (state l))" using idx by auto
  have "turn_part000 toLowerCase l inp = Inr (nextPlayer (l\<lparr>skipped := skipped l + 1\<rparr>))"
    by (rule turn_part000_rejected [OF idx False lt])
  then show ?thesis using False act lt pos ok by (simp add: nextPlayer_def)
qed

lemma afterLoop_part000_state:
  assumes "players (state l) \<noteq> []"
  shows "\<exists>l'. afterLoop_part000 l = Inr l' \<and> state l' = state l
           \<and> playerIdx l' = playerIdx l \<and> returned l'"
proof (cases "\<not> returned l \<and> skipped l \<ge> 2")
  case True
  from finish_effect [OF assms] obtain l' where
    "finish l = Inr l'" "state l' = state l" "playerIdx l' = playerIdx l" "returned l'"
    by blast
  with True show ?thesis by (simp add: afterLoop_part000_def)
next
  case False
  then show ?thesis by (auto simp: afterLoop_part000_def)
qed

lemma gameLoop_from_part000_keeps:
  assumes "playerIdx l < length (players (state l))"
    and "set_size (usedWords (state l)) \<le> 5"
    and "isGameActive (state l) \<longleftrightarrow> set_size (usedWords (state l)) < 5"
    and "\<exists>r. isWin_part000 (players (state l)) = Inr r"
  shows "\<exists>l'. gameLoop_from_part000 toLowerCase l inps = Inr l'
           \<and> playerIdx l' < length (players (state l'))
           \<and> (\<exists>r. isWin_part000 (players (state l')) = Inr r)
           \<and> set_size (usedWords (state l')) \<le> 5
           \<and> (isGameActive (state l') \<longleftrightarrow> set_size (usedWords (state l')) < 5)
           \<and> (\<not> returned l' \<longrightarrow> continues_part000 l')"
  using assms
proof (induction inps arbitrary: l)
  case Nil
  have ne: "players (state l) \<noteq> []" using Nil(1) by auto
  show ?case
  proof (cases "returned l \<or> \<not> continues_part000 l")
    case True
    from afterLoop_part000_state [OF ne] obtain l' where
      "afterLoop_part000 l = Inr l'" "state l' = state l" "playerIdx l' = playerIdx l"
      "returned l'" by blast
    with True Nil show ?thesis by simp
  next
    case False
    with Nil show ?thesis by simp
  qed
next
  case (Cons inp inps)
  have ne: "players (state l) \<noteq> []" using Cons.prems(1) by auto
  show ?case
  proof (cases "returned l \<or> \<not> continues_part000 l")
    case True
    from afterLoop_part000_state [OF ne] obtain l' where
      "afterLoop_part000 l = Inr l'" "state l' = state l" "playerIdx l' = playerIdx l"
      "returned l'" by blast
    with True Cons.prems show ?thesis by simp
  next
    case False
    then have act: "isGameActive (state l)" by (simp add: continues_part000_def)
    with Cons.prems(3) have lt: "set_size (usedWords (state l)) < 5" by simp
    from turn_part000_keeps [OF Cons.prems(1) act lt Cons.prems(4), of toLowerCase inp]
    obtain l1 where
      l1: "turn_part000 toLowerCase l inp = Inr l1" "playerIdx l1 < length (players (state l1))"
        "\<exists>r. isWin_part000 (players (state l1)) = Inr r"
        "set_size (usedWords (state l1)) \<le> 5"
        "isGameActive (state l1) \<longleftrightarrow> set_size (usedWords (state l1)) < 5"
      by blast
    have "gameLoop_from_part000 toLowerCase l (inp # inps) =
          gameLoop_from_part000 toLowerCase l1 inps"
      using False l1(1) by simp
    with Cons.IH [OF l1(2) l1(4) l1(5) l1(3)] show ?thesis by simp
  qed
qed

lemma afterLoop_part000_returned: "afterLoop_part000 l = Inr l' \<Longrightarrow> returned l'"
  by (auto simp: afterLoop_part000_def finish_def split: if_splits sum.splits)

lemma gameLoop_from_part000_returned:
  "returned l \<Longrightarrow> gameLoop_from_part000 toLowerCase l inps = Inr l"
  by (cases inps) (simp_all add: afterLoop_part000_def)

lemma gameLoop_from_part000_append:
  "gameLoop_from_part000 toLowerCase l (xs @ ys) =
     (case gameLoop_from_part000 toLowerCase l xs of
        Inl e \<Rightarrow> Inl e
      | Inr l' \<Rightarrow> gameLoop_from_part000 toLowerCase l' ys)"
proof (induction xs arbitrary: l)
  case Nil
  show ?case
  proof (cases "returned l \<or> \<not> continues_part000 l")
    case True
    then have a: "gameLoop_from_part000 toLowerCase l ys = afterLoop_part000 l"
      and b: "gameLoop_from_part000 toLowerCase l [] = afterLoop_part000 l"
      by (cases ys, simp_all)
    show ?thesis
    proof (cases "afterLoop_part000 l")
      case (Inl e)
      then show ?thesis using a b by simp
    next
      case (Inr l')
      then have "returned l'" by (rule afterLoop_part000_returned)
      then have "gameLoop_from_part000 toLowerCase l' ys = Inr l'"
        by (rule gameLoop_from_part000_returned)
      then show ?thesis using a b Inr by simp
    qed
  next
    case False
    then show ?thesis by simp
  qed
next
  case (Cons x xs)
  show ?case
  proof (cases "returned l \<or> \<not> continues_part000 l")
    case True
    then have a: "gameLoop_from_part000 toLowerCase l ((x # xs) @ ys) = afterLoop_part000 l"
      and b: "gameLoop_from_part000 toLowerCase l (x # xs) = afterLoop_part000 l"
      by simp_all
    show ?thesis
    proof (cases "afterLoop_part000 l")
      case (Inl e)
      then show ?thesis using a b by simp
    next
      case (Inr l')
      then have "returned l'" by (rule afterLoop_part000_returned)
      then have "gameLoop_from_part000 toLowerCase l' ys = Inr l'"
        by (rule gameLoop_from_part000_returned)
      then show ?thesis using a b Inr by simp
    qed
  next
    case False
    then show ?thesis using Cons.IH by (cases "turn_part000 toLowerCase l x") simp_all
  qed
qed

lemma gameLoop_from_part000_Nil_state:
  assumes "players (state l) \<noteq> []"
  shows "\<exists>l'. gameLoop_from_part000 toLowerCase l [] = Inr l' \<and> state l' = state l"
proof (cases "returned l \<or> \<not> continues_part000 l")
  case True
  from afterLoop_part000_state [OF assms] obtain l' where
    "afterLoop_part000 l = Inr l'" "state l' = state l" by blast
  with True show ?thesis by simp
next
  case False
  then show ?thesis by simp
qed

text \<open>
  The same holds of \<open>src/unnamed/part_000\<close> for every game in which the read of
  \<open>this.#players[1].score\<close> does not throw: a game of two or more players, or one
  whose first human player has no user name, or one without a human player.
\<close>

lemma word_count_win_exact_part000:
  assumes "usedWords g = []" and "isGameActive g" and "players g \<noteq> []"
    and "\<exists>r. isWin_part000 (players g) = Inr r"
  shows "\<exists>l. gameLoop_part000 toLowerCase g inps = Inr l
           \<and> set_size (usedWords (state l)) \<le> 5
           \<and> (isGameActive (state l) \<longleftrightarrow> set_size (usedWords (state l)) < 5)
           \<and> (set_size (usedWords (state l)) = 5 \<longrightarrow> returned l)
           \<and> (returned l \<longrightarrow> (\<forall>inp. gameLoop_part000 toLowerCase g (inps @ [inp]) = Inr l))
           \<and> (\<not> returned l \<longrightarrow>
                (\<forall>inp. \<exists>l1 l'. turn_part000 toLowerCase l inp = Inr l1
                   \<and> gameLoop_part000 toLowerCase g (inps @ [inp]) = Inr l'
                   \<and> state l' = state l1
                   \<and> (accepts_part000 toLowerCase l inp \<longrightarrow>
                        set_size (usedWords (state l')) = set_size (usedWords (state l)) + 1)
                   \<and> (\<not> accepts_part000 toLowerCase l inp \<longrightarrow>
                        usedWords (state l') = usedWords (state l))))"
proof -
  have e: "playerIdx (enter g) < length (players (state (enter g)))"
    "set_size (usedWords (state (enter g))) \<le> 5"
    "isGameActive (state (enter g)) \<longleftrightarrow> set_size (usedWords (state (enter g))) < 5"
    "\<exists>r. isWin_part000 (players (state (enter g))) = Inr r"
    using assms by (simp_all add: enter_def set_size_def)
  from gameLoop_from_part000_keeps [OF e, of toLowerCase inps] obtain l where
    l: "gameLoop_from_part000 toLowerCase (enter g) inps = Inr l"
      "playerIdx l < length (players (state l))"
      "\<exists>r. isWin_part000 (players (state l)) = Inr r"
      "set_size (usedWords (state l)) \<le> 5"
      "isGameActive (state l) \<longleftrightarrow> set_size (usedWords (state l)) < 5"
      "\<not> returned l \<longrightarrow> continues_part000 l"
    by blast
  have r: "set_size (usedWords (state l)) = 5 \<longrightarrow> returned l"
    using l(5) l(6) by (auto simp: continues_part000_def)
  have app: "gameLoop_part000 toLowerCase g (inps @ [inp]) =
             gameLoop_from_part000 toLowerCase l [inp]" for inp
    unfolding gameLoop_part000_def gameLoop_from_part000_append l(1) by simp
  have s: "returned l \<longrightarrow> (\<forall>inp. gameLoop_part000 toLowerCase g (inps @ [inp]) = Inr l)"
    unfolding app using gameLoop_from_part000_returned by blast
  have t: "\<not> returned l \<longrightarrow>
                (\<forall>inp. \<exists>l1 l'. turn_part000 toLowerCase l inp = Inr l1
                   \<and> gameLoop_part000 toLowerCase g (inps @ [inp]) = Inr l'
                   \<and> state l' = state l1
                   \<and> (accepts_part000 toLowerCase l inp \<longrightarrow>
                        set_size (usedWords (state l')) = set_size (usedWords (state l)) + 1)
                   \<and> (\<not> accepts_part000 toLowerCase l inp \<longrightarrow>
                        usedWords (state l') = usedWords (state l)))"
  proof (intro allI impI)
    fix inp assume nr: "\<not> returned l"
    with l(6) have c: "continues_part000 l" by simp
    then have act: "isGameActive (state l)" by (simp add: continues_part000_def)
    with l(5) have lt: "set_size (usedWords (state l)) < 5" by simp
    from turn_part000_keeps [OF l(2) act lt l(3), of toLowerCase inp] obtain l1 where
      l1: "turn_part000 toLowerCase l inp = Inr l1"
        "playerIdx l1 < length (players (state l1))"
        "accepts_part000 toLowerCase l inp \<longrightarrow>
           set_size (usedWords (state l1)) = set_size (usedWords (state l)) + 1"
        "\<not> accepts_part000 toLowerCase l inp \<longrightarrow> usedWords (state l1) = usedWords (state l)"
      by blast
    have ne: "players (state l1) \<noteq> []" using l1(2) by auto
    have "gameLoop_part000 toLowerCase g (inps @ [inp]) =
          gameLoop_from_part000 toLowerCase l1 []"
      unfolding app using nr c l1(1) by simp
    moreover from gameLoop_from_part000_Nil_state [OF ne, of toLowerCase] obtain l' where
      "gameLoop_from_part000 toLowerCase l1 [] = Inr l'" "state l' = state l1" by blast
    ultimately have l': "gameLoop_part000 toLowerCase g (inps @ [inp]) = Inr l'"
      "state l' = state l1"
      by simp_all
    show "\<exists>l1 l'. turn_part000 toLowerCase l inp = Inr l1
                   \<and> gameLoop_part000 toLowerCase g (inps @ [inp]) = Inr l'
                   \<and> state l' = state l1
                   \<and> (accepts_part000 toLowerCase l inp \<longrightarrow>
                        set_size (usedWords (state l')) = set_size (usedWords (state l)) + 1)
                   \<and> (\<not> accepts_part000 toLowerCase l inp \<longrightarrow>
                        usedWords (state l') = usedWords (state l))"
      using l1(1,3,4) l' by (intro exI [of _ l1] exI [of _ l']) simp
  qed
  show ?thesis
    unfolding gameLoop_part000_def [of toLowerCase g inps]
    by (intro exI [of _ l] conjI l(1) l(4) l(5) r s t)
qed

subsection \<open>A named human player alone in \<open>src/unnamed/part_000\<close>\<close>

text \<open>
  When the only player is a human player with a user name, the iteration that accepts
  the fifth word throws, and every other iteration of a running game returns with fewer
  than five used words. So no run of such a game arrives at five used words: it throws
  with the fifth accepted word.
\<close>

lemma isWin_part000_throws_addPoint:
  assumes "isWin_part000 ps = Inl TypeError" and "i < length ps"
  shows "isWin_part000 (ps[i := addPoint k (ps ! i)]) = Inl TypeError"
proof -
  from assms(1) obtain p where ps: "ps = [p]" "is_HumanPlayer p" "username p \<noteq> []"
    unfolding isWin_part000_throws_iff by blast
  with assms(2) have i: "i = 0" by simp
  show ?thesis unfolding isWin_part000_throws_iff ps(1) i using ps(2,3)
    by (cases p) (simp_all add: addPoint_def)
qed

lemma turn_part000_lone:
  assumes idx: "playerIdx l < length (players (state l))"
    and act: "isGameActive (state l)"
    and lt: "set_size (usedWords (state l)) < 5"
    and bad: "isWin_part000 (players (state l)) = Inl TypeError"
  shows "(accepts_part000 toLowerCase l inp \<and> set_size (usedWords (state l)) = 4 \<longrightarrow>
            turn_part000 toLowerCase l inp = Inl TypeError)
       \<and> (\<not> (accepts_part000 toLowerCase l inp \<and> set_size (usedWords (state l)) = 4) \<longrightarrow>
            (\<exists>l'. turn_part000 toLowerCase l inp = Inr l'
               \<and> playerIdx l' < length (players (state l'))
               \<and> isGameActive (state l')
               \<and> set_size (usedWords (state l')) < 5
               \<and> isWin_part000 (players (state l')) = Inl TypeError))"
proof (cases "accepts_part000 toLowerCase l inp")
  case True
  then obtain w where w: "submission_part000 toLowerCase l inp = Some w" "w \<noteq> []"
    "validateWord_part000 toLowerCase w (lastWord (state l)) (usedWords (state l))"
    by (auto simp: accepts_part000_def split: option.splits)
  let ?ps = "(players (state l))[playerIdx l := addPoint 1 (players (state l) ! playerIdx l)]"
  have ne: "?ps \<noteq> []" using idx by auto
  from showWinner_ok [OF ne] obtain x where x: "showWinner ?ps = Inr x" by blast
  have r: "isWin_part000 ?ps = Inl TypeError" by (rule isWin_part000_throws_addPoint [OF bad idx])
  have n: "set_size (set_add (usedWords (state l)) (toLowerCase w)) =
           set_size (usedWords (state l)) + 1"
    by (rule set_size_add_new [OF validateWord_part000_new [OF w(3)]])
  have pos: "0 < length (players (state l))" using idx by auto
  show ?thesis
  proof (cases "set_size (usedWords (state l)) = 4")
    case four: True
    have "turn_part000 toLowerCase l inp = Inl TypeError"
      using w x r idx pos n four
      by (simp add: turn_part000_def wordCountCheck_part000_def submission_part000_def Let_def
            nextPlayer_def)
    with True four show ?thesis by simp
  next
    case False
    with lt have less: "set_size (usedWords (state l)) + 1 < 5" by simp
    have "\<exists>l'. turn_part000 toLowerCase l inp = Inr l'
               \<and> playerIdx l' < length (players (state l'))
               \<and> isGameActive (state l')
               \<and> set_size (usedWords (state l')) < 5
               \<and> isWin_part000 (players (state l')) = Inl TypeError"
      using w x r idx pos n less act
      by (simp add: turn_part000_def wordCountCheck_part000_def submission_part000_def Let_def
            nextPlayer_def)
    with False show ?thesis by simp
  qed
next
  case False
  have pos: "0 < length (players (state l))" using idx by auto
  have "turn_part000 toLowerCase l inp = Inr (nextPlayer (l\<lparr>skipped := skipped l + 1\<rparr>))"
    by (rule turn_part000_rejected [OF idx False lt])
  then show ?thesis using False act lt pos bad by (simp add: nextPlayer_def)
qed

lemma gameLoop_from_part000_lone:
  assumes "playerIdx l < length (players (state l))"
    and "isGameActive (state l)"
    and "set_size (usedWords (state l)) < 5"
    and "isWin_part000 (players (state l)) = Inl TypeError"
  shows "gameLoop_from_part000 toLowerCase l inps = Inl TypeError
       \<or> (\<exists>l'. gameLoop_from_part000 toLowerCase l inps = Inr l'
             \<and> playerIdx l' < length (players (state l'))
             \<and> isGameActive (state l')
             \<and> set_size (usedWords (state l')) < 5
             \<and> isWin_part000 (players (state l')) = Inl TypeError
             \<and> (returned l' \<or> continues_part000 l'))"
  using assms
proof (induction inps arbitrary: l)
  case Nil
  have ne: "players (state l) \<noteq> []" using Nil(1) by auto
  show ?case
  proof (cases "returned l \<or> \<not> continues_part000 l")
    case True
    from afterLoop_part000_state [OF ne] obtain l' where
      "afterLoop_part000 l = Inr l'" "state l' = state l" "playerIdx l' = playerIdx l"
      "returned l'" by blast
    with True Nil show ?thesis by simp
  next
    case False
    with Nil show ?thesis by simp
  qed
next
  case (Cons inp inps)
  have ne: "players (state l) \<noteq> []" using Cons.prems(1) by auto
  show ?case
  proof (cases "returned l \<or> \<not> continues_part000 l")
    case True
    from afterLoop_part000_state [OF ne] obtain l' where
      "afterLoop_part000 l = Inr l'" "state l' = state l" "playerIdx l' = playerIdx l"
      "returned l'" by blast
    with True Cons.prems show ?thesis by simp
  next
    case False
    note t = turn_part000_lone [OF Cons.prems, of toLowerCase inp]
    show ?thesis
    proof (cases "accepts_part000 toLowerCase l inp \<and> set_size (usedWords (state l)) = 4")
      case True
      with t have "turn_part000 toLowerCase l inp = Inl TypeError" by blast
      with False show ?thesis by simp
    next
      case no: False
      with t obtain l1 where
        l1: "turn_part000 toLowerCase l inp = Inr l1"
          "playerIdx l1 < length (players (state l1))"
          "isGameActive (state l1)"
          "set_size (usedWords (state l1)) < 5"
          "isWin_part000 (players (state l1)) = Inl TypeError"
        by blast
      have "gameLoop_from_part000 toLowerCase l (inp # inps) =
            gameLoop_from_part000 toLowerCase l1 inps"
        using False l1(1) by simp
      with Cons.IH [OF l1(2) l1(3) l1(4) l1(5)] show ?thesis by simp
    qed
  qed
qed

lemma lone_named_player_never_wins:
  assumes "usedWords g = []" and "isGameActive g"
    and "isWin_part000 (players g) = Inl TypeError"
  shows "gameLoop_part000 toLowerCase g inps = Inl TypeError
       \<or> (\<exists>l. gameLoop_part000 toLowerCase g inps = Inr l
             \<and> isGameActive (state l)
             \<and> set_size (usedWords (state l)) < 5
             \<and> (\<forall>inp. \<not> returned l \<and> accepts_part000 toLowerCase l inp
                      \<and> set_size (usedWords (state l)) = 4 \<longrightarrow>
                    gameLoop_part000 toLowerCase g (inps @ [inp]) = Inl TypeError))"
proof -
  from assms(3) obtain p where "players g = [p]" unfolding isWin_part000_throws_iff by blast
  then have e: "playerIdx (enter g) < length (players (state (enter g)))"
    "isGameActive (state (enter g))"
    "set_size (usedWords (state (enter g))) < 5"
    "isWin_part000 (players (state (enter g))) = Inl TypeError"
    using assms by (simp_all add: enter_def set_size_def)
  show ?thesis
  proof (cases "gameLoop_part000 toLowerCase g inps = Inl TypeError")
    case True
    then show ?thesis by simp
  next
    case False
    with gameLoop_from_part000_lone [OF e, of toLowerCase inps] obtain l where
      l: "gameLoop_from_part000 toLowerCase (enter g) inps = Inr l"
        "playerIdx l < length (players (state l))"
        "isGameActive (state l)"
        "set_size (usedWords (state l)) < 5"
        "isWin_part000 (players (state l)) = Inl TypeError"
        "returned l \<or> continues_part000 l"
      unfolding gameLoop_part000_def by blast
    have t: "\<forall>inp. \<not> returned l \<and> accepts_part000 toLowerCase l inp
                      \<and> set_size (usedWords (state l)) = 4 \<longrightarrow>
                    gameLoop_part000 toLowerCase g (inps @ [inp]) = Inl TypeError"
    proof (intro allI impI)
      fix inp
      assume a: "\<not> returned l \<and> accepts_part000 toLowerCase l inp
                      \<and> set_size (usedWords (state l)) = 4"
      with l(6) have c: "continues_part000 l" by simp
      from turn_part000_lone [OF l(2) l(3) l(4) l(5), of toLowerCase inp] a
      have "turn_part000 toLowerCase l inp = Inl TypeError" by blast
      then have "gameLoop_from_part000 toLowerCase l [inp] = Inl TypeError"
        using a c by simp
      then show "gameLoop_part000 toLowerCase g (inps @ [inp]) = Inl TypeError"
        unfolding gameLoop_part000_def gameLoop_from_part000_append l(1) by simp
    qed
    show ?thesis
      unfolding gameLoop_part000_def [of toLowerCase g inps]
      by (intro disjI2 exI [of _ l] conjI l(1) l(3) l(4) t)
  qed
qed

subsection \<open>Games of five words\<close>

lemma gameLoop_from_part000_step:
  "\<not> returned l \<Longrightarrow> continues_part000 l \<Longrightarrow> turn_part000 toLowerCase l inp = Inr l' \<Longrightarrow>
   gameLoop_from_part000 toLowerCase l (inp # inps) = gameLoop_from_part000 toLowerCase l' inps"
  by simp


text \<open>
  The game of Ann and Bob starts as \<open>word_count_win_exact\<close> and
  \<open>word_count_win_exact_part000\<close> require.
\<close>

lemma twoHumans_fresh:
  "usedWords twoHumans = []" "isGameActive twoHumans" "players twoHumans \<noteq> []"
  "\<exists>r. isWin_part000 (players twoHumans) = Inr r"
  by (simp_all add: twoHumans_def isWin_part000_def)

text \<open>
  Ann and Bob play Moscow, wa, ab, bc, cd. In \<open>src/app.js\<close> Ann wins with five points
  against Bob's two, in \<open>src/unnamed/part_000\<close> with three points against two.
\<close>

lemma twoHumans_five_words:
  "gameLoop lowerLatinCyrillic twoHumans
     [types ''Moscow'', types ''wa'', types ''ab'', types ''bc'', types ''cd''] =
   Inr \<lparr>state =
          \<lparr>players = [HumanPlayer (ascii ''Ann'') 5 (ascii ''a1'') [] (ascii ''ann''),
                      HumanPlayer (ascii ''Bob'') 2 (ascii ''b1'') [] []],
           usedWords = [ascii ''moscow'', ascii ''wa'', ascii ''ab'', ascii ''bc'', ascii ''cd''],
           currentCategory = [1075, 1086, 1088, 1086, 1076, 1072],
           lastWord = ascii ''cd'', isGameActive = False, currentUser = None\<rparr>,
        playerIdx = 0, skipped = 0, round_no = 6,
        winner = Some (HumanPlayer (ascii ''Ann'') 5 (ascii ''a1'') [] (ascii ''ann'')),
        returned = True\<rparr>"
proof -
  let ?l = "\<lambda>a b used last idx rnd.
    \<lparr>state =
       \<lparr>players = [HumanPlayer (ascii ''Ann'') a (ascii ''a1'') [] (ascii ''ann''),
                   HumanPlayer (ascii ''Bob'') b (ascii ''b1'') [] []],
        usedWords = used,
        currentCategory = [1075, 1086, 1088, 1086, 1076, 1072],
        lastWord = last, isGameActive = True, currentUser = None\<rparr>,
     playerIdx = idx, skipped = 0, round_no = rnd, winner = None, returned = False\<rparr>"
  let ?end = "\<lparr>state =
          \<lparr>players = [HumanPlayer (ascii ''Ann'') 5 (ascii ''a1'') [] (ascii ''ann''),
                      HumanPlayer (ascii ''Bob'') 2 (ascii ''b1'') [] []],
           usedWords = [ascii ''moscow'', ascii ''wa'', ascii ''ab'', ascii ''bc'', ascii ''cd''],
           currentCategory = [1075, 1086, 1088, 1086, 1076, 1072],
           lastWord = ascii ''cd'', isGameActive = False, currentUser = None\<rparr>,
        playerIdx = 0, skipped = 0, round_no = 6,
        winner = Some (HumanPlayer (ascii ''Ann'') 5 (ascii ''a1'') [] (ascii ''ann'')),
        returned = True\<rparr>"
  note defs = turn_def types_def trim_def isWhitespace_def ascii_def validateWord_def
    Validator_validateWord_def MIN_WORD_LENGTH_def lowerLatinCyrillic_def
    lowerLatinCyrillicUnit_def unitAt_def
    set_has_def acceptWord_def set_add_def set_size_def MAX_WORDS_FOR_WIN_def addPoint_def
    nextPlayer_def Let_def finish_def showWinner_def
  have e: "enter twoHumans = ?l 0 0 [] [] 0 1" by (simp add: enter_def twoHumans_def)
  have t1: "turn lowerLatinCyrillic (?l 0 0 [] [] 0 1) (types ''Moscow'') =
              Inr (?l 3 0 [ascii ''moscow''] (ascii ''Moscow'') 1 2)"
    by (simp add: defs)
  have t2: "turn lowerLatinCyrillic (?l 3 0 [ascii ''moscow''] (ascii ''Moscow'') 1 2)
              (types ''wa'') =
              Inr (?l 3 1 [ascii ''moscow'', ascii ''wa''] (ascii ''wa'') 0 3)"
    by (simp add: defs)
  have t3: "turn lowerLatinCyrillic (?l 3 1 [ascii ''moscow'', ascii ''wa''] (ascii ''wa'') 0 3)
              (types ''ab'') =
              Inr (?l 4 1 [ascii ''moscow'', ascii ''wa'', ascii ''ab''] (ascii ''ab'') 1 4)"
    by (simp add: defs)
  have t4: "turn lowerLatinCyrillic
              (?l 4 1 [ascii ''moscow'', ascii ''wa'', ascii ''ab''] (ascii ''ab'') 1 4)
              (types ''bc'') =
              Inr (?l 4 2 [ascii ''moscow'', ascii ''wa'', ascii ''ab'', ascii ''bc'']
                     (ascii ''bc'') 0 5)"
    by (simp add: defs)
  have t5: "turn lowerLatinCyrillic
              (?l 4 2 [ascii ''moscow'', ascii ''wa'', ascii ''ab'', ascii ''bc'']
                     (ascii ''bc'') 0 5) (types ''cd'') = Inr ?end"
    by (simp add: defs)
  have c: "continues (?l a b used last idx rnd)" for a b used last idx rnd
    by (simp add: continues_def MAX_SKIPPED_TURNS_def)
  have r: "\<not> returned (?l a b used last idx rnd)" for a b used last idx rnd by simp
  have "gameLoop lowerLatinCyrillic twoHumans
          [types ''Moscow'', types ''wa'', types ''ab'', types ''bc'', types ''cd''] =
        gameLoop_from lowerLatinCyrillic (?l 0 0 [] [] 0 1)
          [types ''Moscow'', types ''wa'', types ''ab'', types ''bc'', types ''cd'']"
    by (simp only: gameLoop_def e)
  also have "\<dots> = gameLoop_from lowerLatinCyrillic
          (?l 3 0 [ascii ''moscow''] (ascii ''Moscow'') 1 2)
          [types ''wa'', types ''ab'', types ''bc'', types ''cd'']"
    by (rule gameLoop_from_step [OF r c t1])
  also have "\<dots> = gameLoop_from lowerLatinCyrillic
          (?l 3 1 [ascii ''moscow'', ascii ''wa''] (ascii ''wa'') 0 3)
          [types ''ab'', types ''bc'', types ''cd'']"
    by (rule gameLoop_from_step [OF r c t2])
  also have "\<dots> = gameLoop_from lowerLatinCyrillic
          (?l 4 1 [ascii ''moscow'', ascii ''wa'', ascii ''ab''] (ascii ''ab'') 1 4)
          [types ''bc'', types ''cd'']"
    by (rule gameLoop_from_step [OF r c t3])
  also have "\<dots> = gameLoop_from lowerLatinCyrillic
          (?l 4 2 [ascii ''moscow'', ascii ''wa'', ascii ''ab'', ascii ''bc''] (ascii ''bc'') 0 5)
          [types ''cd'']"
    by (rule gameLoop_from_step [OF r c t4])
  also have "\<dots> = gameLoop_from lowerLatinCyrillic ?end []"
    by (rule gameLoop_from_step [OF r c t5])
  also have "\<dots> = Inr ?end" by (rule gameLoop_from_returned) simp
  finally show ?thesis .
qed

lemma twoHumans_five_words_part000:
  "gameLoop_part000 lowerLatinCyrillic twoHumans
     [types ''Moscow'', types ''wa'', types ''ab'', types ''bc'', types ''cd''] =
   Inr \<lparr>state =
          \<lparr>players = [HumanPlayer (ascii ''Ann'') 3 (ascii ''a1'') [] (ascii ''ann''),
                      HumanPlayer (ascii ''Bob'') 2 (ascii ''b1'') [] []],
           usedWords = [ascii ''moscow'', ascii ''wa'', ascii ''ab'', ascii ''bc'', ascii ''cd''],
           currentCategory = [1075, 1086, 1088, 1086, 1076, 1072],
           lastWord = ascii ''cd'', isGameActive = False, currentUser = None\<rparr>,
        playerIdx = 1, skipped = 0, round_no = 1,
        winner = Some (HumanPlayer (ascii ''Ann'') 3 (ascii ''a1'') [] (ascii ''ann'')),
        returned = True\<rparr>"
proof -
  let ?l = "\<lambda>a b used last idx.
    \<lparr>state =
       \<lparr>players = [HumanPlayer (ascii ''Ann'') a (ascii ''a1'') [] (ascii ''ann''),
                   HumanPlayer (ascii ''Bob'') b (ascii ''b1'') [] []],
        usedWords = used,
        currentCategory = [1075, 1086, 1088, 1086, 1076, 1072],
        lastWord = last, isGameActive = True, currentUser = None\<rparr>,
     playerIdx = idx, skipped = 0, round_no = 1, winner = None, returned = False\<rparr>"
  let ?won = "\<lparr>state =
          \<lparr>players = [HumanPlayer (ascii ''Ann'') 3 (ascii ''a1'') [] (ascii ''ann''),
                      HumanPlayer (ascii ''Bob'') 2 (ascii ''b1'') [] []],
           usedWords = [ascii ''moscow'', ascii ''wa'', ascii ''ab'', ascii ''bc'', ascii ''cd''],
           currentCategory = [1075, 1086, 1088, 1086, 1076, 1072],
           lastWord = ascii ''cd'', isGameActive = False, currentUser = None\<rparr>,
        playerIdx = 1, skipped = 0, round_no = 1,
        winner = Some (HumanPlayer (ascii ''Ann'') 3 (ascii ''a1'') [] (ascii ''ann'')),
        returned = False\<rparr>"
  note defs = turn_part000_def wordCountCheck_part000_def types_def trim_def isWhitespace_def
    ascii_def validateWord_part000_def lowerLatinCyrillic_def lowerLatinCyrillicUnit_def
    unitAt_def set_has_def set_add_def set_size_def addPoint_def nextPlayer_def Let_def
    showWinner_def isWin_part000_def
  have e: "enter twoHumans = ?l 0 0 [] [] 0" by (simp add: enter_def twoHumans_def)
  have t1: "turn_part000 lowerLatinCyrillic (?l 0 0 [] [] 0) (types ''Moscow'') =
              Inr (?l 1 0 [ascii ''moscow''] (ascii ''Moscow'') 1)"
    by (simp add: defs)
  have t2: "turn_part000 lowerLatinCyrillic (?l 1 0 [ascii ''moscow''] (ascii ''Moscow'') 1)
              (types ''wa'') =
              Inr (?l 1 1 [ascii ''moscow'', ascii ''wa''] (ascii ''wa'') 0)"
    by (simp add: defs)
  have t3: "turn_part000 lowerLatinCyrillic
              (?l 1 1 [ascii ''moscow'', ascii ''wa''] (ascii ''wa'') 0) (types ''ab'') =
              Inr (?l 2 1 [ascii ''moscow'', ascii ''wa'', ascii ''ab''] (ascii ''ab'') 1)"
    by (simp add: defs)
  have t4: "turn_part000 lowerLatinCyrillic
              (?l 2 1 [ascii ''moscow'', ascii ''wa'', ascii ''ab''] (ascii ''ab'') 1)
              (types ''bc'') =
              Inr (?l 2 2 [ascii ''moscow'', ascii ''wa'', ascii ''ab'', ascii ''bc'']
                     (ascii ''bc'') 0)"
    by (simp add: defs)
  have t5: "turn_part000 lowerLatinCyrillic
              (?l 2 2 [ascii ''moscow'', ascii ''wa'', ascii ''ab'', ascii ''bc'']
                     (ascii ''bc'') 0) (types ''cd'') = Inr ?won"
    by (simp add: defs)
  have c: "continues_part000 (?l a b used last idx)" for a b used last idx
    by (simp add: continues_part000_def)
  have r: "\<not> returned (?l a b used last idx)" for a b used last idx by simp
  have "gameLoop_part000 lowerLatinCyrillic twoHumans
          [types ''Moscow'', types ''wa'', types ''ab'', types ''bc'', types ''cd''] =
        gameLoop_from_part000 lowerLatinCyrillic (?l 0 0 [] [] 0)
          [types ''Moscow'', types ''wa'', types ''ab'', types ''bc'', types ''cd'']"
    by (simp only: gameLoop_part000_def e)
  also have "\<dots> = gameLoop_from_part000 lowerLatinCyrillic
          (?l 1 0 [ascii ''moscow''] (ascii ''Moscow'') 1)
          [types ''wa'', types ''ab'', types ''bc'', types ''cd'']"
    by (rule gameLoop_from_part000_step [OF r c t1])
  also have "\<dots> = gameLoop_from_part000 lowerLatinCyrillic
          (?l 1 1 [ascii ''moscow'', ascii ''wa''] (ascii ''wa'') 0)
          [types ''ab'', types ''bc'', types ''cd'']"
    by (rule gameLoop_from_part000_step [OF r c t2])
  also have "\<dots> = gameLoop_from_part000 lowerLatinCyrillic
          (?l 2 1 [ascii ''moscow'', ascii ''wa'', ascii ''ab''] (ascii ''ab'') 1)
          [types ''bc'', types ''cd'']"
    by (rule gameLoop_from_part000_step [OF r c t3])
  also have "\<dots> = gameLoop_from_part000 lowerLatinCyrillic
          (?l 2 2 [ascii ''moscow'', ascii ''wa'', ascii ''ab'', ascii ''bc''] (ascii ''bc'') 0)
          [types ''cd'']"
    by (rule gameLoop_from_part000_step [OF r c t4])
  also have "\<dots> = gameLoop_from_part000 lowerLatinCyrillic ?won []"
    by (rule gameLoop_from_part000_step [OF r c t5])
  also have "\<dots> = Inr (?won\<lparr>returned := True\<rparr>)"
    by (simp add: continues_part000_def afterLoop_part000_def)
  finally show ?thesis by simp
qed




end
